theory Spec2Isabelle
  imports Complex_Main
begin

section \<open>Python values used by the exporter\<close>

text \<open>
  The exporter is one Python module, \<^verbatim>\<open>telegram_file_exporter/main.py\<close>. Strings are
  modelled as \<^typ>\<open>string\<close> restricted to ASCII (lower-casing and white space beyond ASCII
  are not modelled), Python integers as \<^typ>\<open>int\<close>, and the one floating-point value of
  the program, the size in MiB, as the rational number that the computed double denotes.
  Every exception that the module can raise is a value of \<open>error\<close>; printing is not
  modelled, the external effects (file-system probes, transfers, manifest writes, pacing
  sleeps) are recorded in an explicit state.
\<close>

datatype error =
  AttributeError
| OverflowError
| TypeError
| ExternalError string

type_synonym path = string

subsection \<open>\<^verbatim>\<open>str.lower\<close>, \<^verbatim>\<open>str.strip\<close>, \<^verbatim>\<open>str(int)\<close>\<close>

definition lower_char :: "char \<Rightarrow> char" where
  "lower_char c =
     (case map_of (zip ''ABCDEFGHIJKLMNOPQRSTUVWXYZ'' ''abcdefghijklmnopqrstuvwxyz'') c of
        None \<Rightarrow> c
      | Some l \<Rightarrow> l)"

definition lower :: "string \<Rightarrow> string" where
  "lower s = map lower_char s"

text \<open>
  The ASCII characters for which \<^verbatim>\<open>str.isspace\<close> holds: tab, line feed, vertical tab,
  form feed, carriage return, the four separators \<^verbatim>\<open>0x1c\<close> to \<^verbatim>\<open>0x1f\<close>, and space.
\<close>

definition isspace :: "char \<Rightarrow> bool" where
  "isspace c =
     (c \<in> set [CHR 0x09, CHR 0x0A, CHR 0x0B, CHR 0x0C, CHR 0x0D,
                CHR 0x1C, CHR 0x1D, CHR 0x1E, CHR 0x1F, CHR 0x20])"

definition strip :: "string \<Rightarrow> string" where
  "strip s = rev (dropWhile isspace (rev (dropWhile isspace s)))"

definition digit_char :: "nat \<Rightarrow> char" where
  "digit_char d = ''0123456789'' ! d"

fun str_nat :: "nat \<Rightarrow> string" where
  "str_nat n = (if n < 10 then [digit_char n] else str_nat (n div 10) @ [digit_char (n mod 10)])"

declare str_nat.simps [simp del]

definition str_int :: "int \<Rightarrow> string" where
  "str_int i = (if i < 0 then CHR ''-'' # str_nat (nat (- i)) else str_nat (nat i))"

text \<open>Two-digit, zero-padded fields of \<^verbatim>\<open>strftime\<close> (\<^verbatim>\<open>%m %d %H %M %S\<close>).\<close>

definition pad2 :: "nat \<Rightarrow> string" where
  "pad2 n = (if n < 10 then CHR ''0'' # str_nat n else str_nat n)"

subsection \<open>\<^verbatim>\<open>os.path\<close> (the POSIX flavour)\<close>

text \<open>
  \<^verbatim>\<open>str.rfind\<close> of a single character: the index of its last occurrence, \<open>-1\<close> when
  there is none.
\<close>

fun rfind_from :: "char \<Rightarrow> string \<Rightarrow> int \<Rightarrow> int \<Rightarrow> int" where
  "rfind_from c [] i found = found"
| "rfind_from c (x # xs) i found = rfind_from c xs (i + 1) (if x = c then i else found)"

definition rfind :: "string \<Rightarrow> char \<Rightarrow> int" where
  "rfind p c = rfind_from c p 0 (- 1)"

text \<open>
  \<^verbatim>\<open>genericpath._splitext(p, '/', None, '.')\<close>: the extension starts at the last dot,
  provided that dot comes after the last separator and some character between the
  separator and the dot is not itself a dot (leading dots belong to the name).
\<close>

definition splitext :: "path \<Rightarrow> path \<times> string" where
  "splitext p =
     (let sepIndex = rfind p CHR ''/'';
          dotIndex = rfind p CHR ''.''
      in if dotIndex > sepIndex \<and>
            list_ex (\<lambda>c. c \<noteq> CHR ''.'')
              (take (nat (dotIndex - (sepIndex + 1))) (drop (nat (sepIndex + 1)) p))
         then (take (nat dotIndex) p, drop (nat dotIndex) p)
         else (p, []))"

text \<open>\<^verbatim>\<open>posixpath.join(a, b)\<close> for two components.\<close>

definition path_join :: "path \<Rightarrow> path \<Rightarrow> path" where
  "path_join a b =
     (if b \<noteq> [] \<and> hd b = CHR ''/'' then b
      else if a = [] \<or> last a = CHR ''/'' then a @ b
      else a @ ''/'' @ b)"

subsection \<open>True division of an integer by \<^verbatim>\<open>1024 * 1024\<close>\<close>

text \<open>
  \<^verbatim>\<open>int / int\<close> is the quotient correctly rounded to a double (53 significant bits, ties
  to even), and raises \<^verbatim>\<open>OverflowError\<close> when the rounded quotient does not fit a double
  (it is at least \<open>2^1024\<close>). The divisor \<open>2^20\<close> is a power of two, so rounding the
  quotient is rounding the dividend.
\<close>

fun bit_length :: "nat \<Rightarrow> nat" where
  "bit_length n = (if n = 0 then 0 else Suc (bit_length (n div 2)))"

declare bit_length.simps [simp del]

definition round_to_53_bits :: "nat \<Rightarrow> nat" where
  "round_to_53_bits n =
     (if n < 2 ^ 53 then n
      else let e = bit_length n - 53;
               q = n div 2 ^ e;
               r = n mod 2 ^ e;
               h = 2 ^ (e - 1)
           in (if r > h \<or> (r = h \<and> odd q) then q + 1 else q) * 2 ^ e)"

definition truediv_mib :: "int \<Rightarrow> error + rat" where
  "truediv_mib b =
     (let n = round_to_53_bits (nat \<bar>b\<bar>)
      in if n \<ge> 2 ^ 1044 then Inl OverflowError
         else Inr (of_int (sgn b) * of_nat n / (1024 * 1024)))"

section \<open>Data model\<close>

text \<open>
  What the module reads from the objects of the transport library. A document attribute
  either carries a \<^verbatim>\<open>file_name\<close> or does not; the \<^verbatim>\<open>document\<close> of a
  \<^verbatim>\<open>MessageMediaDocument\<close> is optional; the media of a message is absent (\<^verbatim>\<open>None\<close>),
  a document, some other kind of media, or (the module tests for it) a Python list.
  The attributes \<^verbatim>\<open>id\<close> of a message and of a channel and \<^verbatim>\<open>size\<close> of a document are
  the fields \<open>msg_id\<close>, \<open>channel_id\<close> and \<open>doc_size\<close>, since \<open>id\<close> and \<open>size\<close> are
  constants of HOL.
\<close>

datatype attribute = DocumentAttributeFilename string | DocumentAttributeOther

record document =
  attributes :: "attribute list"
  doc_size :: int

datatype media =
  MessageMediaDocument "document option"
| MessageMediaOther
| MediaList "media list"

record datetime =
  year :: nat
  month :: nat
  day :: nat
  hour :: nat
  minute :: nat
  second :: nat

record message =
  msg_id :: int
  date :: datetime
  media :: "media option"

record channel =
  username :: "string option"
  channel_id :: int

text \<open>The dictionary built by \<^verbatim>\<open>process_message\<close> for one accepted document.\<close>

record file_data =
  file_name :: string
  file_path :: "path option"
  post_url :: string
  file_exists :: bool
  fsize_mb :: rat

text \<open>One row of the manifest; the fields are the keys of the written dictionary.\<close>

record message_data =
  File_Name :: string
  Date_Posted :: string
  Combined_Name :: string
  Post_URL :: string

text \<open>
  The effects outside the program: the paths that exist, and a trace of each call to
  \<^verbatim>\<open>os.path.exists\<close>, \<^verbatim>\<open>client.download_media\<close>, \<^verbatim>\<open>json.dump\<close> and
  \<^verbatim>\<open>time.sleep\<close>.
\<close>

record effects =
  files :: "path set"
  probes :: "path list"
  transfers :: "(media option \<times> path option) list"
  writes :: "(path \<times> string \<times> message_data list) list"
  sleeps :: nat

section \<open>Helpers of the module\<close>

definition strftime_ymd :: "datetime \<Rightarrow> string" where
  "strftime_ymd d = str_nat (year d) @ pad2 (month d) @ pad2 (day d)"

definition strftime_full :: "datetime \<Rightarrow> string" where
  "strftime_full d =
     str_nat (year d) @ ''-'' @ pad2 (month d) @ ''-'' @ pad2 (day d) @ '' '' @
     pad2 (hour d) @ '':'' @ pad2 (minute d) @ '':'' @ pad2 (second d)"

definition sanitize_filename :: "message \<Rightarrow> string \<Rightarrow> string" where
  "sanitize_filename message fname = strftime_ymd (date message) @ ''-'' @ fname"

definition get_post_url :: "channel \<Rightarrow> message \<Rightarrow> string" where
  "get_post_url chan message =
     (case username chan of
        Some u \<Rightarrow>
          if u \<noteq> [] then ''https://t.me/'' @ u @ ''/'' @ str_int (msg_id message)
          else ''https://t.me/c/'' @ str_int \<bar>channel_id chan\<bar> @ ''/'' @ str_int (msg_id message)
      | None \<Rightarrow>
          ''https://t.me/c/'' @ str_int \<bar>channel_id chan\<bar> @ ''/'' @ str_int (msg_id message))"

section \<open>\<^verbatim>\<open>process_message\<close>\<close>

text \<open>
  \<^verbatim>\<open>next((attr.file_name.strip() for attr in ... if hasattr(attr, "file_name")), None)\<close>:
  the stripped name of the first attribute that has one.
\<close>

fun find_file_name :: "attribute list \<Rightarrow> string option" where
  "find_file_name [] = None"
| "find_file_name (DocumentAttributeFilename n # attrs) = Some (strip n)"
| "find_file_name (DocumentAttributeOther # attrs) = find_file_name attrs"

text \<open>
  \<^verbatim>\<open>doc.document.attributes\<close>: only a \<^verbatim>\<open>MessageMediaDocument\<close> has a \<^verbatim>\<open>document\<close>, and
  reading \<^verbatim>\<open>attributes\<close> of \<^verbatim>\<open>None\<close> raises.
\<close>

fun document_of :: "media \<Rightarrow> error + document" where
  "document_of (MessageMediaDocument (Some d)) = Inr d"
| "document_of (MessageMediaDocument None) = Inl AttributeError"
| "document_of MessageMediaOther = Inl AttributeError"
| "document_of (MediaList l) = Inl AttributeError"

text \<open>
  The test of the extension, \<^verbatim>\<open>file_ext in (ext.lower() for ext in allowed_extensions)\<close>
  (the source skips the document when it is false).
\<close>

definition extension_allowed :: "string \<Rightarrow> string list \<Rightarrow> bool" where
  "extension_allowed file_ext allowed_extensions =
     (file_ext \<in> set (map lower allowed_extensions))"

text \<open>
  The body of the loop \<^verbatim>\<open>for doc in media\<close>. It raises (\<open>Inl\<close>), skips the document
  with \<^verbatim>\<open>continue\<close> (\<open>Inr (None, _)\<close>) or appends one \<open>file_data\<close>. The file system is
  probed in download mode only, after both checks.
\<close>

definition process_doc ::
  "message \<Rightarrow> channel \<Rightarrow> string list \<Rightarrow> int \<Rightarrow> path \<Rightarrow> string \<Rightarrow> media \<Rightarrow> effects
   \<Rightarrow> (error \<times> effects) + (file_data option \<times> effects)" where
  "process_doc message chan allowed_extensions maxsize_mb download_dir mode doc fx =
     (case document_of doc of
        Inl e \<Rightarrow> Inl (e, fx)
      | Inr d \<Rightarrow>
          (case find_file_name (attributes d) of
             None \<Rightarrow> Inr (None, fx)
           | Some fname \<Rightarrow>
               if fname = [] then Inr (None, fx)
               else if \<not> extension_allowed (lower (snd (splitext fname))) allowed_extensions
               then Inr (None, fx)
               else
                 (case truediv_mib (doc_size d) of
                    Inl e \<Rightarrow> Inl (e, fx)
                  | Inr mb \<Rightarrow>
                      if mb > of_int maxsize_mb then Inr (None, fx)
                      else
                        (let combined_name = sanitize_filename message fname;
                             url = get_post_url chan message
                         in if mode = ''download''
                            then
                              (let p = path_join download_dir combined_name
                               in Inr (Some \<lparr>file_name = fname, file_path = Some p,
                                              post_url = url, file_exists = (p \<in> files fx),
                                              fsize_mb = mb\<rparr>,
                                       fx\<lparr>probes := probes fx @ [p]\<rparr>))
                            else
                              Inr (Some \<lparr>file_name = fname, file_path = None,
                                          post_url = url, file_exists = False,
                                          fsize_mb = mb\<rparr>, fx)))))"

fun process_docs ::
  "message \<Rightarrow> channel \<Rightarrow> string list \<Rightarrow> int \<Rightarrow> path \<Rightarrow> string \<Rightarrow> media list
   \<Rightarrow> file_data list \<Rightarrow> effects \<Rightarrow> (error \<times> effects) + (file_data list \<times> effects)" where
  "process_docs message chan allowed_extensions maxsize_mb download_dir mode [] files_data fx =
     Inr (files_data, fx)"
| "process_docs message chan allowed_extensions maxsize_mb download_dir mode (doc # rest)
     files_data fx =
     (case process_doc message chan allowed_extensions maxsize_mb download_dir mode doc fx of
        Inl err \<Rightarrow> Inl err
      | Inr (None, fx') \<Rightarrow>
          process_docs message chan allowed_extensions maxsize_mb download_dir mode rest
            files_data fx'
      | Inr (Some fd, fx') \<Rightarrow>
          process_docs message chan allowed_extensions maxsize_mb download_dir mode rest
            (files_data @ [fd]) fx')"

text \<open>
  Truth value of \<^verbatim>\<open>message.media\<close> (an empty list is false, every media object is
  true) and the two \<^verbatim>\<open>isinstance\<close> tests of the function.
\<close>

fun truthy :: "media \<Rightarrow> bool" where
  "truthy (MediaList l) = (l \<noteq> [])"
| "truthy m = True"

fun is_MessageMediaDocument :: "media \<Rightarrow> bool" where
  "is_MessageMediaDocument (MessageMediaDocument d) = True"
| "is_MessageMediaDocument m = False"

fun as_list :: "media \<Rightarrow> media list" where
  "as_list (MediaList l) = l"
| "as_list m = [m]"

text \<open>
  The guard returns the empty list for a message without media and for media that is
  not a \<^verbatim>\<open>MessageMediaDocument\<close>; what passes is wrapped into a one-element list unless
  it is a list. The \<^verbatim>\<open>client\<close> argument of the source is not used by the function and is
  left out.
\<close>

definition process_message ::
  "message \<Rightarrow> channel \<Rightarrow> string list \<Rightarrow> int \<Rightarrow> path \<Rightarrow> string \<Rightarrow> effects
   \<Rightarrow> (error \<times> effects) + (file_data list \<times> effects)" where
  "process_message message chan allowed_extensions maxsize_mb download_dir mode fx =
     (case media message of
        None \<Rightarrow> Inr ([], fx)
      | Some md \<Rightarrow>
          if \<not> truthy md \<or> \<not> is_MessageMediaDocument md then Inr ([], fx)
          else process_docs message chan allowed_extensions maxsize_mb download_dir mode
                 (as_list md) [] fx)"

section \<open>\<^verbatim>\<open>export_documents\<close>\<close>

definition DEFAULT_ALLOWED_EXTENSIONS :: "string list" where
  "DEFAULT_ALLOWED_EXTENSIONS =
     [''.zip'', ''.tar'', ''.gz'', ''.7z'', ''.rar'', ''.xls'', ''.xlsx'', ''.csv'', ''.txt'',
      ''.doc'', ''.docx'']"

definition DEFAULT_SIZE_LIMIT_MB :: int where
  "DEFAULT_SIZE_LIMIT_MB = 3 * 1024"

text \<open>
  The collaborators of the run, which are not part of the module: entering the client
  session, resolving the channel, the messages the transport yields for a channel and a
  limit, the transfer of one media to a path (which changes the set of existing paths or
  raises), the display name of a channel, the working directory and opening the output
  file for writing.
\<close>

record env =
  start :: "error option"
  get_entity :: "string \<Rightarrow> error + channel"
  iter_messages :: "channel \<Rightarrow> int \<Rightarrow> message list"
  download_media :: "media option \<Rightarrow> path option \<Rightarrow> path set \<Rightarrow> error + path set"
  get_display_name :: "channel \<Rightarrow> string"
  getcwd :: path
  open_w :: "path \<Rightarrow> error option"

text \<open>The local variables of the run together with the effects so far.\<close>

record run_state =
  files_downloaded :: nat
  files_existed :: nat
  processed :: nat
  channel_data :: "message_data list"
  world :: effects

text \<open>
  The loop \<^verbatim>\<open>for file_data in files_data\<close>: the manifest row is appended first, then the
  file is transferred (download mode, not yet present) or counted as present. An
  exception of the transfer leaves the loop with the state reached.
\<close>

fun export_files_data ::
  "env \<Rightarrow> string \<Rightarrow> message \<Rightarrow> file_data list \<Rightarrow> run_state
   \<Rightarrow> (error \<times> run_state) + run_state" where
  "export_files_data ev mode message [] st = Inr st"
| "export_files_data ev mode message (fd # rest) st =
     (let row = \<lparr>File_Name = file_name fd,
                 Date_Posted = strftime_full (date message),
                 Combined_Name = sanitize_filename message (file_name fd),
                 Post_URL = post_url fd\<rparr>;
          st1 = st\<lparr>channel_data := channel_data st @ [row]\<rparr>
      in if mode = ''download'' \<and> \<not> file_exists fd then
           (let w = (world st1)\<lparr>transfers :=
                      transfers (world st1) @ [(media message, file_path fd)]\<rparr>
            in case download_media ev (media message) (file_path fd) (files w) of
                 Inl e \<Rightarrow> Inl (e, st1\<lparr>world := w\<rparr>)
               | Inr fs \<Rightarrow>
                   export_files_data ev mode message rest
                     (st1\<lparr>world := w\<lparr>files := fs\<rparr>,
                          files_downloaded := files_downloaded st1 + 1\<rparr>))
         else if file_exists fd then
           export_files_data ev mode message rest (st1\<lparr>files_existed := files_existed st1 + 1\<rparr>)
         else export_files_data ev mode message rest st1)"

text \<open>
  The body of the loop \<^verbatim>\<open>async for message in client.iter_messages(...)\<close>: count the
  message, process it, export its files, sleep.
\<close>

definition export_message ::
  "env \<Rightarrow> channel \<Rightarrow> string list \<Rightarrow> int \<Rightarrow> path \<Rightarrow> string \<Rightarrow> message \<Rightarrow> run_state
   \<Rightarrow> (error \<times> run_state) + run_state" where
  "export_message ev chan allowed_extensions maxsize_mb download_dir mode message st =
     (let st1 = st\<lparr>processed := processed st + 1\<rparr>
      in case process_message message chan allowed_extensions maxsize_mb download_dir mode
                (world st1) of
           Inl (e, fx) \<Rightarrow> Inl (e, st1\<lparr>world := fx\<rparr>)
         | Inr (files_data, fx) \<Rightarrow>
             (case export_files_data ev mode message files_data (st1\<lparr>world := fx\<rparr>) of
                Inl err \<Rightarrow> Inl err
              | Inr st2 \<Rightarrow>
                  Inr (st2\<lparr>world := (world st2)\<lparr>sleeps := sleeps (world st2) + 1\<rparr>\<rparr>)))"

text \<open>
  The loop over the messages the transport yields; after the body,
  \<^verbatim>\<open>if processed >= max_limit: break\<close>.
\<close>

fun export_messages ::
  "env \<Rightarrow> channel \<Rightarrow> string list \<Rightarrow> int \<Rightarrow> path \<Rightarrow> string \<Rightarrow> int \<Rightarrow> message list
   \<Rightarrow> run_state \<Rightarrow> (error \<times> run_state) + run_state" where
  "export_messages ev chan allowed_extensions maxsize_mb download_dir mode max_limit [] st =
     Inr st"
| "export_messages ev chan allowed_extensions maxsize_mb download_dir mode max_limit
     (message # rest) st =
     (case export_message ev chan allowed_extensions maxsize_mb download_dir mode message st of
        Inl err \<Rightarrow> Inl err
      | Inr st3 \<Rightarrow>
          if int (processed st3) \<ge> max_limit then Inr st3
          else export_messages ev chan allowed_extensions maxsize_mb download_dir mode
                 max_limit rest st3)"

text \<open>
  How a run ends: an exception of entering the client session is raised to the caller;
  every exception inside the \<^verbatim>\<open>try\<close> block is caught by its single handler, which
  prints it; otherwise the run completes.
\<close>

datatype outcome =
  Uncaught error effects
| Caught error run_state
| Completed run_state

definition initial_state :: "effects \<Rightarrow> run_state" where
  "initial_state fx =
     \<lparr>files_downloaded = 0, files_existed = 0, processed = 0, channel_data = [], world = fx\<rparr>"

text \<open>
  \<^verbatim>\<open>if output:\<close> open the output file and dump the one-key dictionary. Opening
  \<^verbatim>\<open>None\<close> raises \<^verbatim>\<open>TypeError\<close>; a file opened for writing exists afterwards.
\<close>

definition write_output ::
  "env \<Rightarrow> channel \<Rightarrow> path option \<Rightarrow> bool \<Rightarrow> run_state \<Rightarrow> (error \<times> run_state) + run_state" where
  "write_output ev chan output_file output st =
     (if output then
        (case output_file of
           None \<Rightarrow> Inl (TypeError, st)
         | Some f \<Rightarrow>
             (case open_w ev f of
                Some e \<Rightarrow> Inl (e, st)
              | None \<Rightarrow>
                  Inr (st\<lparr>world := (world st)\<lparr>
                         files := insert f (files (world st)),
                         writes := writes (world st) @
                           [(f, get_display_name ev chan, channel_data st)]\<rparr>\<rparr>)))
      else Inr st)"

text \<open>
  \<^verbatim>\<open>x or default\<close> for the two optional arguments: \<^verbatim>\<open>None\<close> and the empty value are
  replaced by the default.
\<close>

definition or_default :: "'a list option \<Rightarrow> 'a list \<Rightarrow> 'a list" where
  "or_default x d = (case x of None \<Rightarrow> d | Some v \<Rightarrow> if v = [] then d else v)"

text \<open>
  The run. \<^verbatim>\<open>api_id\<close> and \<^verbatim>\<open>api_hash\<close> only configure the client session, whose
  start is the field \<open>start\<close> of the collaborators.
\<close>

definition export_documents ::
  "env \<Rightarrow> string \<Rightarrow> path option \<Rightarrow> int \<Rightarrow> string \<Rightarrow> bool \<Rightarrow> path option \<Rightarrow> int
   \<Rightarrow> string list option \<Rightarrow> effects \<Rightarrow> outcome" where
  "export_documents ev channel_name output_file max_limit mode output download_dir maxsize_mb
     allowed_extensions fx =
     (let allowed = or_default allowed_extensions DEFAULT_ALLOWED_EXTENSIONS;
          ddir = or_default download_dir (getcwd ev)
      in case start ev of
           Some e \<Rightarrow> Uncaught e fx
         | None \<Rightarrow>
             (case get_entity ev channel_name of
                Inl e \<Rightarrow> Caught e (initial_state fx)
              | Inr chan \<Rightarrow>
                  (case export_messages ev chan allowed maxsize_mb ddir mode max_limit
                          (iter_messages ev chan max_limit) (initial_state fx) of
                     Inl (e, st) \<Rightarrow> Caught e st
                   | Inr st \<Rightarrow>
                       (case write_output ev chan output_file output st of
                          Inl (e, st') \<Rightarrow> Caught e st'
                        | Inr st' \<Rightarrow> Completed st'))))"

section \<open>Notions used by the properties\<close>

text \<open>
  The attachments of a message, as the specification has them: every document that the
  message carries, whether its media is one \<^verbatim>\<open>MessageMediaDocument\<close> or a list of them.
\<close>

fun documents_of :: "media \<Rightarrow> document list" where
  "documents_of (MessageMediaDocument (Some d)) = [d]"
| "documents_of (MessageMediaDocument None) = []"
| "documents_of MessageMediaOther = []"
| "documents_of (MediaList l) = concat (map documents_of l)"

definition attachments :: "media option \<Rightarrow> document list" where
  "attachments md = (case md of None \<Rightarrow> [] | Some x \<Rightarrow> documents_of x)"

text \<open>
  The three conditions of the manifest invariant, in the words of the specification: the
  attachment has a non-empty file name, its lower-cased extension is in the allowed set,
  and its size in MiB is within the ceiling.
\<close>

definition within_limit :: "int \<Rightarrow> int \<Rightarrow> bool" where
  "within_limit size_bytes limit_mib =
     (case truediv_mib size_bytes of Inl e \<Rightarrow> False | Inr mb \<Rightarrow> mb \<le> of_int limit_mib)"

definition admissible :: "string list \<Rightarrow> int \<Rightarrow> document \<Rightarrow> bool" where
  "admissible allowed_extensions maxsize_mb d =
     (case find_file_name (attributes d) of
        None \<Rightarrow> False
      | Some fname \<Rightarrow>
          fname \<noteq> [] \<and>
          extension_allowed (lower (snd (splitext fname))) allowed_extensions \<and>
          within_limit (doc_size d) maxsize_mb)"

text \<open>
  The manifest row of a file of a message, the rows of one attachment (one row when it
  is admissible, none otherwise), and the rows that the manifest invariant asks of a
  message: those of all its attachments.
\<close>

definition manifest_row :: "channel \<Rightarrow> message \<Rightarrow> string \<Rightarrow> message_data" where
  "manifest_row chan message fname =
     \<lparr>File_Name = fname,
      Date_Posted = strftime_full (date message),
      Combined_Name = sanitize_filename message fname,
      Post_URL = get_post_url chan message\<rparr>"

definition attachment_rows ::
  "channel \<Rightarrow> string list \<Rightarrow> int \<Rightarrow> message \<Rightarrow> document \<Rightarrow> message_data list" where
  "attachment_rows chan allowed_extensions maxsize_mb message d =
     (case find_file_name (attributes d) of
        None \<Rightarrow> []
      | Some fname \<Rightarrow>
          if admissible allowed_extensions maxsize_mb d
          then [manifest_row chan message fname] else [])"

definition invariant_rows ::
  "channel \<Rightarrow> string list \<Rightarrow> int \<Rightarrow> message \<Rightarrow> message_data list" where
  "invariant_rows chan allowed_extensions maxsize_mb message =
     concat (map (attachment_rows chan allowed_extensions maxsize_mb message)
       (attachments (media message)))"

text \<open>
  What the code does with a message, in closed form (lemma \<open>export_message_rows\<close>
  below proves it of the loop body). Only media that is one \<^verbatim>\<open>MessageMediaDocument\<close>
  passes the guard of \<^verbatim>\<open>process_message\<close>, so the document loop sees at most one
  document, \<open>loop_document\<close>, and the rows appended for the message are the rows of that
  document. Media that is a list does not pass the guard and adds no row.
\<close>

fun loop_document :: "media option \<Rightarrow> document option" where
  "loop_document (Some (MessageMediaDocument (Some d))) = Some d"
| "loop_document m = None"

definition rows_of_message ::
  "channel \<Rightarrow> string list \<Rightarrow> int \<Rightarrow> message \<Rightarrow> message_data list" where
  "rows_of_message chan allowed_extensions maxsize_mb message =
     (case loop_document (media message) of
        None \<Rightarrow> []
      | Some d \<Rightarrow> attachment_rows chan allowed_extensions maxsize_mb message d)"

text \<open>The state in which a loop or a run ended, whether by an exception or not.\<close>

fun final_state :: "(error \<times> run_state) + run_state \<Rightarrow> run_state" where
  "final_state (Inl (e, st)) = st"
| "final_state (Inr st) = st"

fun manifest_of :: "outcome \<Rightarrow> message_data list" where
  "manifest_of (Uncaught e fx) = []"
| "manifest_of (Caught e st) = channel_data st"
| "manifest_of (Completed st) = channel_data st"

fun processed_of :: "outcome \<Rightarrow> nat" where
  "processed_of (Uncaught e fx) = 0"
| "processed_of (Caught e st) = processed st"
| "processed_of (Completed st) = processed st"

fun effects_of :: "outcome \<Rightarrow> effects" where
  "effects_of (Uncaught e fx) = fx"
| "effects_of (Caught e st) = world st"
| "effects_of (Completed st) = world st"

text \<open>Whether the body of the document loop appended a \<open>file_data\<close>.\<close>

fun accepted :: "(error \<times> effects) + (file_data option \<times> effects) \<Rightarrow> bool" where
  "accepted (Inr (Some fd, fx)) = True"
| "accepted r = False"

text \<open>The two file counters at the end of a run: downloaded, already present.\<close>

fun counters_of :: "outcome \<Rightarrow> nat \<times> nat" where
  "counters_of (Uncaught e fx) = (0, 0)"
| "counters_of (Caught e st) = (files_downloaded st, files_existed st)"
| "counters_of (Completed st) = (files_downloaded st, files_existed st)"

section \<open>Concrete inputs\<close>

definition example_date :: datetime where
  "example_date = \<lparr>year = 2024, month = 1, day = 5, hour = 7, minute = 8, second = 9\<rparr>"

definition example_channel :: channel where
  "example_channel = \<lparr>username = Some ''news'', channel_id = - 1001234\<rparr>"

definition csv_document :: document where
  "csv_document =
     \<lparr>attributes = [DocumentAttributeOther, DocumentAttributeFilename ''report.csv''],
      doc_size = 1048576\<rparr>"

definition exe_document :: document where
  "exe_document = \<lparr>attributes = [DocumentAttributeFilename ''setup.exe''], doc_size = 10\<rparr>"

definition readme_document :: document where
  "readme_document =
     \<lparr>attributes = [DocumentAttributeFilename ''README''], doc_size = 2097152\<rparr>"

definition csv_message :: message where
  "csv_message =
     \<lparr>msg_id = 42, date = example_date, media = Some (MessageMediaDocument (Some csv_document))\<rparr>"

definition exe_message :: message where
  "exe_message =
     \<lparr>msg_id = 41, date = example_date, media = Some (MessageMediaDocument (Some exe_document))\<rparr>"

definition readme_message :: message where
  "readme_message =
     \<lparr>msg_id = 40, date = example_date,
      media = Some (MessageMediaDocument (Some readme_document))\<rparr>"

text \<open>A document message whose document is gone, and a message with two documents.\<close>

definition broken_message :: message where
  "broken_message = \<lparr>msg_id = 43, date = example_date, media = Some (MessageMediaDocument None)\<rparr>"

definition two_document_message :: message where
  "two_document_message =
     \<lparr>msg_id = 44, date = example_date,
      media = Some (MediaList [MessageMediaDocument (Some csv_document),
                               MessageMediaDocument (Some exe_document)])\<rparr>"

definition no_effects :: effects where
  "no_effects = \<lparr>files = {}, probes = [], transfers = [], writes = [], sleeps = 0\<rparr>"

definition report_present :: effects where
  "report_present =
     \<lparr>files = {''/data/20240105-report.csv''}, probes = [], transfers = [], writes = [],
      sleeps = 0\<rparr>"

text \<open>
  Collaborators that resolve every channel to \<open>example_channel\<close>, yield the given
  messages whatever the limit, and create the file of every transfer.
\<close>

definition example_env :: "message list \<Rightarrow> env" where
  "example_env msgs =
     \<lparr>start = None,
      get_entity = (\<lambda>n. Inr example_channel),
      iter_messages = (\<lambda>c l. msgs),
      download_media = (\<lambda>md p fs. case p of None \<Rightarrow> Inr fs | Some q \<Rightarrow> Inr (insert q fs)),
      get_display_name = (\<lambda>c. ''News''),
      getcwd = ''/home/user'',
      open_w = (\<lambda>p. None)\<rparr>"

definition unresolved_env :: env where
  "unresolved_env =
     (example_env [csv_message])\<lparr>get_entity := (\<lambda>n. Inl (ExternalError ''no such channel''))\<rparr>"

text \<open>Collaborators whose transfer always raises.\<close>

definition failing_transfer_env :: env where
  "failing_transfer_env =
     (example_env [csv_message])\<lparr>download_media :=
        (\<lambda>md p fs. Inl (ExternalError ''connection lost''))\<rparr>"

section \<open>Auxiliary lemmas\<close>

subsection \<open>One document, one message\<close>

lemma process_doc_admissible:
  assumes "admissible al mx d" and "find_file_name (attributes d) = Some fname"
  shows "process_doc m chan al mx dd mode (MessageMediaDocument (Some d)) fx =
     (if mode = ''download''
      then Inr (Some \<lparr>file_name = fname,
                      file_path = Some (path_join dd (sanitize_filename m fname)),
                      post_url = get_post_url chan m,
                      file_exists = (path_join dd (sanitize_filename m fname) \<in> files fx),
                      fsize_mb = projr (truediv_mib (doc_size d))\<rparr>,
                fx\<lparr>probes := probes fx @ [path_join dd (sanitize_filename m fname)]\<rparr>)
      else Inr (Some \<lparr>file_name = fname, file_path = None, post_url = get_post_url chan m,
                      file_exists = False, fsize_mb = projr (truediv_mib (doc_size d))\<rparr>, fx))"
  using assms
  by (auto simp: process_doc_def admissible_def within_limit_def Let_def split: sum.splits)

lemma process_doc_not_admissible:
  assumes "\<not> admissible al mx d"
  shows "process_doc m chan al mx dd mode (MessageMediaDocument (Some d)) fx = Inr (None, fx)
       \<or> (\<exists>e. process_doc m chan al mx dd mode (MessageMediaDocument (Some d)) fx = Inl (e, fx))"
  using assms
  by (auto simp: process_doc_def admissible_def within_limit_def Let_def split: sum.splits option.splits)

lemma process_doc_None:
  "process_doc m chan al mx dd mode (MessageMediaDocument None) fx = Inl (AttributeError, fx)"
  by (simp add: process_doc_def)

lemma process_message_document:
  "media m = Some (MessageMediaDocument dopt) \<Longrightarrow>
   process_message m chan al mx dd mode fx =
     (case process_doc m chan al mx dd mode (MessageMediaDocument dopt) fx of
        Inl err \<Rightarrow> Inl err
      | Inr (None, fx') \<Rightarrow> Inr ([], fx')
      | Inr (Some fd, fx') \<Rightarrow> Inr ([fd], fx'))"
  by (simp add: process_message_def split: sum.splits option.splits)

lemma process_message_no_document:
  "\<forall>dopt. media m \<noteq> Some (MessageMediaDocument dopt) \<Longrightarrow>
   process_message m chan al mx dd mode fx = Inr ([], fx)"
  apply (cases "media m")
   apply (simp add: process_message_def)
  subgoal for md by (cases md) (auto simp: process_message_def)
  done

lemma message_shapes:
  obtains (nodoc) "loop_document (media m) = None" "\<forall>dopt. media m \<noteq> Some (MessageMediaDocument dopt)"
  | (nonedoc) "media m = Some (MessageMediaDocument None)"
  | (doc) d where "media m = Some (MessageMediaDocument (Some d))"
proof (cases "media m")
  case None then show ?thesis using nodoc by simp
next
  case (Some md)
  then show ?thesis
  proof (cases md)
    case (MessageMediaDocument dopt)
    then show ?thesis using Some nonedoc doc by (cases dopt) auto
  qed (use Some nodoc in auto)
qed

lemma export_files_data_processed:
  "processed (final_state (export_files_data ev mode m fds st)) = processed st"
  by (induction fds arbitrary: st) (auto simp: Let_def split: sum.splits)

lemma export_files_data_writes:
  "writes (world (final_state (export_files_data ev mode m fds st))) = writes (world st)"
  by (induction fds arbitrary: st) (auto simp: Let_def split: sum.splits)


lemma export_files_data_Nil_rows:
  "channel_data (final_state (export_files_data ev mode m [] st)) = channel_data st"
  by simp

lemma export_files_data_single_rows:
  "channel_data (final_state (export_files_data ev mode m [fd] st)) =
     channel_data st @ [\<lparr>File_Name = file_name fd, Date_Posted = strftime_full (date m),
        Combined_Name = sanitize_filename m (file_name fd), Post_URL = post_url fd\<rparr>]"
  by (auto simp: Let_def split: sum.splits)

lemma process_message_cases:
  "(\<exists>e fx'. process_message m chan al mx dd mode fx = Inl (e, fx') \<and> rows_of_message chan al mx m = []) \<or>
   (\<exists>fx'. process_message m chan al mx dd mode fx = Inr ([], fx') \<and> rows_of_message chan al mx m = []) \<or>
   (\<exists>fd fx'. process_message m chan al mx dd mode fx = Inr ([fd], fx') \<and>
      rows_of_message chan al mx m = [\<lparr>File_Name = file_name fd, Date_Posted = strftime_full (date m),
        Combined_Name = sanitize_filename m (file_name fd), Post_URL = post_url fd\<rparr>])"
proof (cases m rule: message_shapes)
  case nodoc
  then show ?thesis
    by (simp add: process_message_no_document rows_of_message_def attachment_rows_def)
next
  case nonedoc
  then show ?thesis
    by (simp add: process_message_document process_doc_None rows_of_message_def attachment_rows_def)
next
  case (doc d)
  show ?thesis
  proof (cases "admissible al mx d")
    case True
    then obtain fname where f: "find_file_name (attributes d) = Some fname"
      by (auto simp: admissible_def split: option.splits)
    show ?thesis
      using doc True f
      by (simp add: process_message_document process_doc_admissible rows_of_message_def attachment_rows_def manifest_row_def)
  next
    case False
    from process_doc_not_admissible[OF False, of m chan dd mode fx]
    show ?thesis using doc False
      by (auto simp: process_message_document rows_of_message_def attachment_rows_def split: option.splits)
  qed
qed

lemma export_message_final:
  obtains (raise_pm) e fx' where
      "process_message m chan al mx dd mode (world st) = Inl (e, fx')"
      "export_message ev chan al mx dd mode m st =
         Inl (e, st\<lparr>processed := processed st + 1, world := fx'\<rparr>)"
  | (raise_files) fds fx' e st' where
      "process_message m chan al mx dd mode (world st) = Inr (fds, fx')"
      "export_files_data ev mode m fds (st\<lparr>processed := processed st + 1, world := fx'\<rparr>) = Inl (e, st')"
      "export_message ev chan al mx dd mode m st = Inl (e, st')"
  | (ok) fds fx' st' where
      "process_message m chan al mx dd mode (world st) = Inr (fds, fx')"
      "export_files_data ev mode m fds (st\<lparr>processed := processed st + 1, world := fx'\<rparr>) = Inr st'"
      "export_message ev chan al mx dd mode m st =
         Inr (st'\<lparr>world := (world st')\<lparr>sleeps := sleeps (world st') + 1\<rparr>\<rparr>)"
proof (cases "process_message m chan al mx dd mode (world st)")
  case (Inl a)
  then show ?thesis using raise_pm by (cases a) (simp add: export_message_def)
next
  case (Inr b)
  obtain fds fx' where b: "b = (fds, fx')" by (cases b)
  show ?thesis
  proof (cases "export_files_data ev mode m fds (st\<lparr>processed := processed st + 1, world := fx'\<rparr>)")
    case (Inl a)
    then show ?thesis using raise_files Inr b by (cases a) (simp add: export_message_def)
  next
    case (Inr st')
    then show ?thesis using ok \<open>process_message m chan al mx dd mode (world st) = Inr b\<close> b
      by (simp add: export_message_def)
  qed
qed

lemma export_message_processed:
  "processed (final_state (export_message ev chan al mx dd mode m st)) = processed st + 1"
proof (cases ev chan al mx dd mode m st rule: export_message_final)
  case (raise_pm e fx')
  then show ?thesis by simp
next
  case (raise_files fds fx' e st')
  from export_files_data_processed[of ev mode m fds "st\<lparr>processed := processed st + 1, world := fx'\<rparr>"]
  show ?thesis using raise_files by simp
next
  case (ok fds fx' st')
  from export_files_data_processed[of ev mode m fds "st\<lparr>processed := processed st + 1, world := fx'\<rparr>"]
  show ?thesis using ok by simp
qed

lemma export_message_rows:
  "channel_data (final_state (export_message ev chan al mx dd mode m st)) =
     channel_data st @ rows_of_message chan al mx m"
proof (cases ev chan al mx dd mode m st rule: export_message_final)
  case (raise_pm e fx')
  then show ?thesis using process_message_cases[of m chan al mx dd mode "world st"] by auto
next
  case (raise_files fds fx' e st')
  from process_message_cases[of m chan al mx dd mode "world st"] raise_files(1)
  consider "fds = []" "rows_of_message chan al mx m = []"
    | fd where "fds = [fd]" "rows_of_message chan al mx m = [\<lparr>File_Name = file_name fd, Date_Posted = strftime_full (date m),
        Combined_Name = sanitize_filename m (file_name fd), Post_URL = post_url fd\<rparr>]"
    by auto
  then show ?thesis
  proof cases
    case 1
    then show ?thesis using raise_files by auto
  next
    case 2
    from export_files_data_single_rows[of ev mode m fd "st\<lparr>processed := processed st + 1, world := fx'\<rparr>"]
    show ?thesis using raise_files 2 by simp
  qed
next
  case (ok fds fx' st')
  from process_message_cases[of m chan al mx dd mode "world st"] ok(1)
  consider "fds = []" "rows_of_message chan al mx m = []"
    | fd where "fds = [fd]" "rows_of_message chan al mx m = [\<lparr>File_Name = file_name fd, Date_Posted = strftime_full (date m),
        Combined_Name = sanitize_filename m (file_name fd), Post_URL = post_url fd\<rparr>]"
    by auto
  then show ?thesis
  proof cases
    case 1
    then show ?thesis using ok by auto
  next
    case 2
    from export_files_data_single_rows[of ev mode m fd "st\<lparr>processed := processed st + 1, world := fx'\<rparr>"]
    show ?thesis using ok 2 by simp
  qed
qed


lemma export_messages_processed_mono:
  "processed st \<le> processed (final_state (export_messages ev chan al mx dd mode ml ms st))"
proof (induction ms arbitrary: st)
  case Nil
  show ?case by simp
next
  case (Cons m rest)
  have p: "processed (final_state (export_message ev chan al mx dd mode m st)) = processed st + 1"
    by (rule export_message_processed)
  show ?case
  proof (cases "export_message ev chan al mx dd mode m st")
    case (Inl err)
    then show ?thesis using p by simp
  next
    case (Inr st3)
    then have "processed st3 = processed st + 1" using p by simp
    moreover have "processed st3 \<le> processed (final_state (export_messages ev chan al mx dd mode ml rest st3))"
      by (rule Cons.IH)
    ultimately show ?thesis using Inr by simp
  qed
qed

lemma export_messages_rows:
  "channel_data (final_state (export_messages ev chan al mx dd mode ml ms st)) =
     channel_data st @ concat (map (rows_of_message chan al mx)
       (take (processed (final_state (export_messages ev chan al mx dd mode ml ms st)) - processed st) ms))"
proof (induction ms arbitrary: st)
  case Nil
  show ?case by simp
next
  case (Cons m rest)
  have p: "processed (final_state (export_message ev chan al mx dd mode m st)) = processed st + 1"
    by (rule export_message_processed)
  have r: "channel_data (final_state (export_message ev chan al mx dd mode m st)) =
     channel_data st @ rows_of_message chan al mx m"
    by (rule export_message_rows)
  show ?case
  proof (cases "export_message ev chan al mx dd mode m st")
    case (Inl err)
    then show ?thesis using p r by simp
  next
    case (Inr st3)
    then have p3: "processed st3 = processed st + 1" and r3: "channel_data st3 = channel_data st @ rows_of_message chan al mx m"
      using p r by simp_all
    show ?thesis
    proof (cases "int (processed st3) \<ge> ml")
      case True
      then show ?thesis using Inr p3 r3 by simp
    next
      case False
      let ?f = "final_state (export_messages ev chan al mx dd mode ml rest st3)"
      have mono: "processed st3 \<le> processed ?f"
        by (rule export_messages_processed_mono)
      have ih: "channel_data ?f = channel_data st3 @ concat (map (rows_of_message chan al mx)
           (take (processed ?f - processed st3) rest))"
        by (rule Cons.IH)
      have eq: "export_messages ev chan al mx dd mode ml (m # rest) st =
                export_messages ev chan al mx dd mode ml rest st3"
        using Inr False by simp
      have "processed ?f - processed st = Suc (processed ?f - processed st3)"
        using mono p3 by simp
      then show ?thesis unfolding eq using ih r3 by simp
    qed
  qed
qed

lemma export_messages_count:
  "export_messages ev chan al mx dd mode ml ms st = Inr st' \<Longrightarrow>
   processed st' = processed st + min (length ms) (nat (max 1 (ml - int (processed st))))"
proof (induction ms arbitrary: st)
  case Nil
  then show ?case by simp
next
  case (Cons m rest)
  have p: "processed (final_state (export_message ev chan al mx dd mode m st)) = processed st + 1"
    by (rule export_message_processed)
  show ?case
  proof (cases "export_message ev chan al mx dd mode m st")
    case (Inl err)
    then show ?thesis using Cons.prems by simp
  next
    case (Inr st3)
    then have p3: "processed st3 = processed st + 1" using p by simp
    show ?thesis
    proof (cases "int (processed st3) \<ge> ml")
      case True
      then have "st' = st3" using Cons.prems Inr by simp
      then show ?thesis using True p3 by auto
    next
      case False
      then have "export_messages ev chan al mx dd mode ml rest st3 = Inr st'"
        using Cons.prems Inr by simp
      from Cons.IH[OF this] show ?thesis using False p3 by auto
    qed
  qed
qed


lemma write_output_frame:
  "channel_data (final_state (write_output ev chan output_file output st)) = channel_data st \<and>
   processed (final_state (write_output ev chan output_file output st)) = processed st \<and>
   files_downloaded (final_state (write_output ev chan output_file output st)) = files_downloaded st \<and>
   files_existed (final_state (write_output ev chan output_file output st)) = files_existed st"
  by (simp add: write_output_def split: option.splits)

lemma export_documents_cases:
  obtains (uncaught) e where "start ev = Some e"
      "export_documents ev channel_name output_file max_limit mode outp download_dir
             maxsize_mb allowed_extensions fx = Uncaught e fx"
  | (unresolved) e where "start ev = None" "get_entity ev channel_name = Inl e"
      "export_documents ev channel_name output_file max_limit mode outp download_dir
             maxsize_mb allowed_extensions fx = Caught e (initial_state fx)"
  | (loop_raised) chan e st where "start ev = None" "get_entity ev channel_name = Inr chan"
      "export_messages ev chan (or_default allowed_extensions DEFAULT_ALLOWED_EXTENSIONS)
         maxsize_mb (or_default download_dir (getcwd ev)) mode max_limit
         (iter_messages ev chan max_limit) (initial_state fx) = Inl (e, st)"
      "export_documents ev channel_name output_file max_limit mode outp download_dir
             maxsize_mb allowed_extensions fx = Caught e st"
  | (write_raised) chan st e where "start ev = None" "get_entity ev channel_name = Inr chan"
      "export_messages ev chan (or_default allowed_extensions DEFAULT_ALLOWED_EXTENSIONS)
         maxsize_mb (or_default download_dir (getcwd ev)) mode max_limit
         (iter_messages ev chan max_limit) (initial_state fx) = Inr st"
      "write_output ev chan output_file outp st = Inl (e, st)"
      "export_documents ev channel_name output_file max_limit mode outp download_dir
             maxsize_mb allowed_extensions fx = Caught e st"
  | (completed) chan st st' where "start ev = None" "get_entity ev channel_name = Inr chan"
      "export_messages ev chan (or_default allowed_extensions DEFAULT_ALLOWED_EXTENSIONS)
         maxsize_mb (or_default download_dir (getcwd ev)) mode max_limit
         (iter_messages ev chan max_limit) (initial_state fx) = Inr st"
      "write_output ev chan output_file outp st = Inr st'"
      "export_documents ev channel_name output_file max_limit mode outp download_dir
             maxsize_mb allowed_extensions fx = Completed st'"
proof (cases "start ev")
  case (Some e)
  then show ?thesis using uncaught by (simp add: export_documents_def)
next
  case None
  show ?thesis
  proof (cases "get_entity ev channel_name")
    case (Inl e)
    then show ?thesis using unresolved None by (simp add: export_documents_def)
  next
    case (Inr chan)
    let ?r = "export_messages ev chan (or_default allowed_extensions DEFAULT_ALLOWED_EXTENSIONS)
         maxsize_mb (or_default download_dir (getcwd ev)) mode max_limit
         (iter_messages ev chan max_limit) (initial_state fx)"
    show ?thesis
    proof (cases ?r)
      case (Inl a)
      obtain e st where a: "a = (e, st)" by (cases a)
      show ?thesis using loop_raised[of chan e st] None Inr Inl a
        by (simp add: export_documents_def)
    next
      case r: (Inr st)
      show ?thesis
      proof (cases "write_output ev chan output_file outp st")
        case (Inl a)
        obtain e st' where a: "a = (e, st')" by (cases a)
        have "st' = st" using Inl a by (auto simp: write_output_def split: if_splits option.splits)
        then show ?thesis using write_raised[of chan st e] None Inr r Inl a
          by (simp add: export_documents_def)
      next
        case w: (Inr st')
        show ?thesis using completed[of chan st st'] None Inr r w
          by (simp add: export_documents_def)
      qed
    qed
  qed
qed

subsection \<open>The run\<close>

lemma initial_state_simps:
  "channel_data (initial_state fx) = []" "processed (initial_state fx) = 0"
  "files_downloaded (initial_state fx) = 0" "files_existed (initial_state fx) = 0"
  "world (initial_state fx) = fx"
  by (simp_all add: initial_state_def)

subsection \<open>Evaluation of the concrete inputs\<close>

lemmas eval_defs = process_message_def process_doc_def extension_allowed_def
  splitext_def rfind_def lower_def lower_char_def strip_def isspace_def truediv_mib_def
  round_to_53_bits_def sanitize_filename_def strftime_ymd_def strftime_full_def pad2_def
  str_int_def str_nat.simps digit_char_def get_post_url_def path_join_def
  DEFAULT_ALLOWED_EXTENSIONS_def Let_def

lemmas run_defs = export_documents_def export_message_def write_output_def or_default_def
  initial_state_def example_env_def no_effects_def

lemma csv_row:
  "manifest_row example_channel csv_message ''report.csv'' =
     \<lparr>File_Name = ''report.csv'', Date_Posted = ''2024-01-05 07:08:09'',
      Combined_Name = ''20240105-report.csv'', Post_URL = ''https://t.me/news/42''\<rparr>"
  by (simp add: manifest_row_def eval_defs csv_message_def example_channel_def example_date_def)

lemma csv_message_list:
  "process_message csv_message example_channel DEFAULT_ALLOWED_EXTENSIONS 3072 ''/home/user''
     ''list'' fx =
   Inr ([\<lparr>file_name = ''report.csv'', file_path = None, post_url = ''https://t.me/news/42'',
         file_exists = False, fsize_mb = 1\<rparr>], fx)"
  by (simp add: eval_defs csv_message_def csv_document_def example_channel_def example_date_def)

lemma exe_message_rejected:
  "process_message exe_message example_channel DEFAULT_ALLOWED_EXTENSIONS 3072 dd mode fx =
   Inr ([], fx)"
  by (simp add: eval_defs exe_message_def exe_document_def)

lemma broken_message_raises:
  "process_message broken_message chan al mx dd mode fx = Inl (AttributeError, fx)"
  by (simp add: process_message_def process_doc_def broken_message_def)

lemma csv_message_date: "strftime_full (date csv_message) = ''2024-01-05 07:08:09''"
  by (simp add: csv_message_def example_date_def eval_defs)

lemma csv_message_combined:
  "sanitize_filename csv_message ''report.csv'' = ''20240105-report.csv''"
  by (simp add: csv_message_def example_date_def eval_defs)

lemma csv_rows_of_message:
  "rows_of_message example_channel DEFAULT_ALLOWED_EXTENSIONS 3072 csv_message =
     [manifest_row example_channel csv_message ''report.csv'']"
  by (simp add: rows_of_message_def attachment_rows_def admissible_def within_limit_def csv_message_def
        csv_document_def eval_defs)

lemma exe_rows_of_message:
  "rows_of_message example_channel DEFAULT_ALLOWED_EXTENSIONS 3072 exe_message = []"
  by (simp add: rows_of_message_def attachment_rows_def admissible_def within_limit_def exe_message_def
        exe_document_def eval_defs)

lemma example_run_list:
  "export_documents (example_env [csv_message, exe_message]) ''@news''
     (Some ''20240105-news.json'') 100 ''list'' True None 3072 None no_effects =
   Completed \<lparr>files_downloaded = 0, files_existed = 0, processed = 2,
     channel_data = [manifest_row example_channel csv_message ''report.csv''],
     world = \<lparr>files = {''20240105-news.json''}, probes = [], transfers = [],
       writes = [(''20240105-news.json'', ''News'',
                  [manifest_row example_channel csv_message ''report.csv''])],
       sleeps = 2\<rparr>\<rparr>"
  by (simp add: run_defs csv_message_list exe_message_rejected csv_row csv_message_date
        csv_message_combined)

subsection \<open>What a run leaves untouched\<close>

lemma process_doc_effects:
  "process_doc m chan al mx dd mode doc fx = Inl (e, fx') \<Longrightarrow> fx' = fx"
  "process_doc m chan al mx dd mode doc fx = Inr (r, fx') \<Longrightarrow>
     writes fx' = writes fx \<and> files fx' = files fx \<and> transfers fx' = transfers fx \<and>
     sleeps fx' = sleeps fx"
  by (auto simp: process_doc_def Let_def split: sum.splits option.splits if_splits)

lemma process_message_effects:
  "process_message m chan al mx dd mode fx = Inl (e, fx') \<Longrightarrow> fx' = fx"
  "process_message m chan al mx dd mode fx = Inr (fds, fx') \<Longrightarrow>
     writes fx' = writes fx \<and> files fx' = files fx \<and> transfers fx' = transfers fx \<and>
     sleeps fx' = sleeps fx"
proof -
  show "process_message m chan al mx dd mode fx = Inl (e, fx') \<Longrightarrow> fx' = fx"
  proof (cases m rule: message_shapes)
    case nodoc
    assume "process_message m chan al mx dd mode fx = Inl (e, fx')"
    then show ?thesis using nodoc by (simp add: process_message_no_document)
  next
    case nonedoc
    assume "process_message m chan al mx dd mode fx = Inl (e, fx')"
    then show ?thesis using nonedoc
      by (simp add: process_message_document process_doc_None)
  next
    case (doc d)
    assume "process_message m chan al mx dd mode fx = Inl (e, fx')"
    then have "process_doc m chan al mx dd mode (MessageMediaDocument (Some d)) fx = Inl (e, fx')"
      using doc by (auto simp: process_message_document split: sum.splits option.splits)
    then show ?thesis by (rule process_doc_effects(1))
  qed
  show "process_message m chan al mx dd mode fx = Inr (fds, fx') \<Longrightarrow>
     writes fx' = writes fx \<and> files fx' = files fx \<and> transfers fx' = transfers fx \<and>
     sleeps fx' = sleeps fx"
  proof (cases m rule: message_shapes)
    case nodoc
    assume "process_message m chan al mx dd mode fx = Inr (fds, fx')"
    then show ?thesis using nodoc by (simp add: process_message_no_document)
  next
    case nonedoc
    assume "process_message m chan al mx dd mode fx = Inr (fds, fx')"
    then show ?thesis using nonedoc
      by (simp add: process_message_document process_doc_None)
  next
    case (doc d)
    assume "process_message m chan al mx dd mode fx = Inr (fds, fx')"
    then obtain r where
      "process_doc m chan al mx dd mode (MessageMediaDocument (Some d)) fx = Inr (r, fx')"
      using doc by (auto simp: process_message_document split: sum.splits option.splits)
    then show ?thesis by (rule process_doc_effects(2))
  qed
qed

lemma export_message_writes:
  "writes (world (final_state (export_message ev chan al mx dd mode m st))) = writes (world st)"
proof (cases ev chan al mx dd mode m st rule: export_message_final)
  case (raise_pm e fx')
  then show ?thesis using process_message_effects(1)[OF raise_pm(1)] by simp
next
  case (raise_files fds fx' e st')
  from export_files_data_writes[of ev mode m fds "st\<lparr>processed := processed st + 1, world := fx'\<rparr>"]
  show ?thesis using raise_files process_message_effects(2)[OF raise_files(1)] by simp
next
  case (ok fds fx' st')
  from export_files_data_writes[of ev mode m fds "st\<lparr>processed := processed st + 1, world := fx'\<rparr>"]
  show ?thesis using ok process_message_effects(2)[OF ok(1)] by simp
qed

lemma export_messages_writes:
  "writes (world (final_state (export_messages ev chan al mx dd mode ml ms st))) =
     writes (world st)"
proof (induction ms arbitrary: st)
  case Nil
  show ?case by simp
next
  case (Cons m rest)
  have w: "writes (world (final_state (export_message ev chan al mx dd mode m st))) =
             writes (world st)"
    by (rule export_message_writes)
  show ?case
  proof (cases "export_message ev chan al mx dd mode m st")
    case (Inl err)
    then show ?thesis using w by simp
  next
    case (Inr st3)
    then have "writes (world st3) = writes (world st)" using w by simp
    then show ?thesis using Inr Cons.IH[of st3] by simp
  qed
qed

text \<open>A loop that raised has not looked at the messages after the one that raised.\<close>

lemma export_messages_raised_prefix:
  "export_messages ev chan al mx dd mode ml ms st = Inl (e, st') \<Longrightarrow>
   export_messages ev chan al mx dd mode ml (take (processed st' - processed st) ms) st =
     Inl (e, st')"
proof (induction ms arbitrary: st)
  case Nil
  then show ?case by simp
next
  case (Cons m rest)
  have p: "processed (final_state (export_message ev chan al mx dd mode m st)) = processed st + 1"
    by (rule export_message_processed)
  show ?case
  proof (cases "export_message ev chan al mx dd mode m st")
    case (Inl err)
    then have "err = (e, st')" using Cons.prems by simp
    then have "processed st' = processed st + 1" using p Inl by simp
    then show ?thesis using Inl \<open>err = (e, st')\<close> by simp
  next
    case (Inr st3)
    then have p3: "processed st3 = processed st + 1" using p by simp
    have nl: "\<not> int (processed st3) \<ge> ml" using Cons.prems Inr by (auto split: if_splits)
    then have r: "export_messages ev chan al mx dd mode ml rest st3 = Inl (e, st')"
      using Cons.prems Inr by simp
    have mono: "processed st3 \<le> processed st'"
      using export_messages_processed_mono[of st3 ev chan al mx dd mode ml rest] r by simp
    have "processed st' - processed st = Suc (processed st' - processed st3)"
      using mono p3 by simp
    then show ?thesis using Cons.IH[OF r] Inr nl by simp
  qed
qed

subsection \<open>Evaluation of concrete runs\<close>

lemma csv_broken_csv_loop:
  "export_messages (example_env [csv_message, broken_message, csv_message]) example_channel
     DEFAULT_ALLOWED_EXTENSIONS 3072 ''/home/user'' ''list'' 100
     [csv_message, broken_message, csv_message] (initial_state no_effects) =
   Inl (AttributeError,
     \<lparr>files_downloaded = 0, files_existed = 0, processed = 2,
      channel_data = [manifest_row example_channel csv_message ''report.csv''],
      world = \<lparr>files = {}, probes = [], transfers = [], writes = [], sleeps = 1\<rparr>\<rparr>)"
  by (simp add: run_defs csv_message_list broken_message_raises csv_row csv_message_date
        csv_message_combined)

lemma broken_csv_loop:
  "export_messages (example_env [broken_message, csv_message]) example_channel
     DEFAULT_ALLOWED_EXTENSIONS 3072 ''/home/user'' ''list'' 2
     [broken_message, csv_message] (initial_state no_effects) =
   Inl (AttributeError,
     \<lparr>files_downloaded = 0, files_existed = 0, processed = 1, channel_data = [],
      world = no_effects\<rparr>)"
  by (simp add: run_defs broken_message_raises)

lemma three_messages_limit_two_loop:
  "export_messages (example_env [csv_message, exe_message, csv_message]) example_channel
     DEFAULT_ALLOWED_EXTENSIONS 3072 ''/home/user'' ''list'' 2
     [csv_message, exe_message, csv_message] (initial_state no_effects) =
   Inr \<lparr>files_downloaded = 0, files_existed = 0, processed = 2,
      channel_data = [manifest_row example_channel csv_message ''report.csv''],
      world = \<lparr>files = {}, probes = [], transfers = [], writes = [], sleeps = 2\<rparr>\<rparr>"
  by (simp add: run_defs csv_message_list exe_message_rejected csv_row csv_message_date
        csv_message_combined)

lemma example_env_simps:
  "start (example_env msgs) = None"
  "get_entity (example_env msgs) n = Inr example_channel"
  "iter_messages (example_env msgs) c l = msgs"
  "getcwd (example_env msgs) = ''/home/user''"
  "get_display_name (example_env msgs) c = ''News''"
  "open_w (example_env msgs) p = None"
  by (simp_all add: example_env_def)

lemma two_documents_loop:
  "process_docs two_document_message example_channel [''.csv''] 3072 ''/home/user'' ''list''
     [MessageMediaDocument (Some csv_document), MessageMediaDocument (Some exe_document)] []
     no_effects =
   Inr ([\<lparr>file_name = ''report.csv'', file_path = None, post_url = ''https://t.me/news/44'',
         file_exists = False, fsize_mb = 1\<rparr>], no_effects)"
  by (simp add: process_doc_def extension_allowed_def splitext_def rfind_def lower_def
        lower_char_def strip_def isspace_def truediv_mib_def round_to_53_bits_def
        str_int_def str_nat.simps digit_char_def get_post_url_def Let_def
        two_document_message_def csv_document_def exe_document_def example_channel_def)

subsection \<open>The size in MiB, list mode\<close>

lemma truediv_mib_exact:
  assumes "\<bar>b\<bar> < 2 ^ 53"
  shows "truediv_mib b = Inr (of_int b / (1024 * 1024))"
proof -
  have "nat \<bar>b\<bar> < 2 ^ 53" using assms by (simp add: nat_less_iff)
  then have r: "round_to_53_bits (nat \<bar>b\<bar>) = nat \<bar>b\<bar>"
    by (simp add: round_to_53_bits_def)
  have s: "(of_int (sgn b) :: rat) * of_nat (nat \<bar>b\<bar>) = of_int b"
    by (cases "b < 0") (auto simp: sgn_if)
  have lt: "\<not> (nat \<bar>b\<bar> \<ge> 2 ^ 1044)" using assms by (simp add: nat_le_iff)
  show ?thesis unfolding truediv_mib_def Let_def r using s lt by simp
qed

lemma process_doc_not_download:
  assumes "mode \<noteq> ''download''"
  shows "process_doc m chan al mx dd mode doc fx = Inr (Some fd, fx') \<Longrightarrow>
           fx' = fx \<and> file_path fd = None \<and> \<not> file_exists fd"
    and "process_doc m chan al mx dd mode doc fx = Inr (None, fx') \<Longrightarrow> fx' = fx"
  using assms
  by (auto simp: process_doc_def Let_def split: sum.splits option.splits if_splits)

lemma process_message_not_download:
  assumes "mode \<noteq> ''download''"
    and "process_message m chan al mx dd mode fx = Inr (fds, fx')"
  shows "fx' = fx \<and> list_all (\<lambda>fd. file_path fd = None \<and> \<not> file_exists fd) fds"
proof (cases m rule: message_shapes)
  case nodoc
  then show ?thesis using assms(2) by (simp add: process_message_no_document)
next
  case nonedoc
  then show ?thesis using assms(2) by (simp add: process_message_document process_doc_None)
next
  case (doc d)
  show ?thesis
  proof (cases "process_doc m chan al mx dd mode (MessageMediaDocument (Some d)) fx")
    case (Inl a)
    then show ?thesis using assms(2) doc by (simp add: process_message_document)
  next
    case (Inr b)
    obtain r fx2 where b: "b = (r, fx2)" by (cases b)
    show ?thesis
    proof (cases r)
      case None
      then show ?thesis
        using assms(2) doc Inr b process_doc_not_download(2)[OF assms(1), of m chan al mx dd
            "MessageMediaDocument (Some d)" fx fx2]
        by (simp add: process_message_document)
    next
      case (Some fd)
      then show ?thesis
        using assms(2) doc Inr b process_doc_not_download(1)[OF assms(1), of m chan al mx dd
            "MessageMediaDocument (Some d)" fx fd fx2]
        by (auto simp: process_message_document)
    qed
  qed
qed

lemma readme_name:
  "find_file_name (attributes readme_document) = Some ''README''"
  "snd (splitext ''README'') = []"
  by (simp_all add: readme_document_def strip_def isspace_def splitext_def rfind_def)

lemma csv_name:
  "find_file_name (attributes csv_document) = Some ''report.csv''"
  "lower (snd (splitext ''report.csv'')) = ''.csv''"
  by (simp_all add: csv_document_def strip_def isspace_def splitext_def rfind_def lower_def
        lower_char_def)

subsection \<open>The counters\<close>

lemma export_files_data_download_counts:
  "export_files_data ev ''download'' m fds st = Inr st' \<Longrightarrow>
   files_downloaded st' + files_existed st' = files_downloaded st + files_existed st + length fds \<and>
   length (channel_data st') = length (channel_data st) + length fds"
proof (induction fds arbitrary: st)
  case Nil
  then show ?case by simp
next
  case (Cons fd rest)
  show ?case
  proof (cases "file_exists fd")
    case True
    then show ?thesis using Cons.prems Cons.IH by (auto simp: Let_def)
  next
    case False
    then show ?thesis using Cons.prems Cons.IH
      by (auto simp: Let_def split: sum.splits)
  qed
qed

lemma export_files_data_not_download:
  assumes "mode \<noteq> ''download''"
    and "list_all (\<lambda>fd. file_path fd = None \<and> \<not> file_exists fd) fds"
  shows "files_downloaded (final_state (export_files_data ev mode m fds st)) = files_downloaded st \<and>
         files_existed (final_state (export_files_data ev mode m fds st)) = files_existed st \<and>
         world (final_state (export_files_data ev mode m fds st)) = world st"
  using assms by (induction fds arbitrary: st) (auto simp: Let_def)

lemma export_message_download_counts:
  assumes "export_message ev chan al mx dd ''download'' m st = Inr st'"
  shows "files_downloaded st' + files_existed st' + length (channel_data st) =
         files_downloaded st + files_existed st + length (channel_data st')"
proof (cases ev chan al mx dd "''download''" m st rule: export_message_final)
  case (raise_pm e fx')
  then show ?thesis using assms by simp
next
  case (raise_files fds fx' e st2)
  then show ?thesis using assms by simp
next
  case (ok fds fx' st2)
  from export_files_data_download_counts[OF ok(2)]
  show ?thesis using ok(3) assms by auto
qed

lemma export_messages_download_counts:
  "export_messages ev chan al mx dd ''download'' ml ms st = Inr st' \<Longrightarrow>
   files_downloaded st' + files_existed st' + length (channel_data st) =
   files_downloaded st + files_existed st + length (channel_data st')"
proof (induction ms arbitrary: st)
  case Nil
  then show ?case by simp
next
  case (Cons m rest)
  show ?case
  proof (cases "export_message ev chan al mx dd ''download'' m st")
    case (Inl err)
    then show ?thesis using Cons.prems by simp
  next
    case (Inr st3)
    note c3 = export_message_download_counts[OF Inr]
    show ?thesis
    proof (cases "int (processed st3) \<ge> ml")
      case True
      then have "st' = st3" using Cons.prems Inr by simp
      then show ?thesis using c3 by simp
    next
      case False
      then have "export_messages ev chan al mx dd ''download'' ml rest st3 = Inr st'"
        using Cons.prems Inr by simp
      from Cons.IH[OF this] show ?thesis using c3 by simp
    qed
  qed
qed

lemma export_message_not_download_counts:
  assumes "mode \<noteq> ''download''"
  shows "files_downloaded (final_state (export_message ev chan al mx dd mode m st)) =
           files_downloaded st \<and>
         files_existed (final_state (export_message ev chan al mx dd mode m st)) =
           files_existed st"
proof (cases ev chan al mx dd mode m st rule: export_message_final)
  case (raise_pm e fx')
  then show ?thesis by simp
next
  case (raise_files fds fx' e st2)
  from process_message_not_download[OF assms raise_files(1)]
  have "list_all (\<lambda>fd. file_path fd = None \<and> \<not> file_exists fd) fds" by simp
  from export_files_data_not_download[OF assms this, of ev m
      "st\<lparr>processed := processed st + 1, world := fx'\<rparr>"]
  show ?thesis using raise_files by simp
next
  case (ok fds fx' st2)
  from process_message_not_download[OF assms ok(1)]
  have "list_all (\<lambda>fd. file_path fd = None \<and> \<not> file_exists fd) fds" by simp
  from export_files_data_not_download[OF assms this, of ev m
      "st\<lparr>processed := processed st + 1, world := fx'\<rparr>"]
  show ?thesis using ok by simp
qed

lemma export_messages_not_download_counts:
  assumes "mode \<noteq> ''download''"
  shows "files_downloaded (final_state (export_messages ev chan al mx dd mode ml ms st)) =
           files_downloaded st \<and>
         files_existed (final_state (export_messages ev chan al mx dd mode ml ms st)) =
           files_existed st"
proof (induction ms arbitrary: st)
  case Nil
  show ?case by simp
next
  case (Cons m rest)
  note c = export_message_not_download_counts[OF assms, of ev chan al mx dd m st]
  show ?case
  proof (cases "export_message ev chan al mx dd mode m st")
    case (Inl err)
    then show ?thesis using c by simp
  next
    case (Inr st3)
    then have "files_downloaded st3 = files_downloaded st \<and> files_existed st3 = files_existed st"
      using c by simp
    then show ?thesis using Inr Cons.IH[of st3] by simp
  qed
qed

subsection \<open>Evaluation of a download\<close>

lemma csv_admissible: "admissible DEFAULT_ALLOWED_EXTENSIONS 3072 csv_document"
  by (simp add: admissible_def within_limit_def csv_document_def eval_defs)

lemma csv_message_download:
  "process_message csv_message example_channel DEFAULT_ALLOWED_EXTENSIONS 3072 ''/data''
     ''download'' fx =
   Inr ([\<lparr>file_name = ''report.csv'', file_path = Some ''/data/20240105-report.csv'',
         post_url = ''https://t.me/news/42'',
         file_exists = (''/data/20240105-report.csv'' \<in> files fx), fsize_mb = 1\<rparr>],
        fx\<lparr>probes := probes fx @ [''/data/20240105-report.csv'']\<rparr>)"
  by (simp add: eval_defs csv_message_def csv_document_def example_channel_def example_date_def)

lemma csv_path:
  "path_join ''/data'' (sanitize_filename csv_message ''report.csv'') =
     ''/data/20240105-report.csv''"
  by (simp add: csv_message_combined path_join_def)

lemma download_twice_loop:
  "export_messages (example_env [csv_message, exe_message, csv_message]) example_channel
     DEFAULT_ALLOWED_EXTENSIONS 3072 ''/data'' ''download'' 100
     [csv_message, exe_message, csv_message] (initial_state no_effects) =
   Inr \<lparr>files_downloaded = 1, files_existed = 1, processed = 3,
      channel_data = [manifest_row example_channel csv_message ''report.csv'',
                      manifest_row example_channel csv_message ''report.csv''],
      world = \<lparr>files = {''/data/20240105-report.csv''},
        probes = [''/data/20240105-report.csv'', ''/data/20240105-report.csv''],
        transfers = [(media csv_message, Some ''/data/20240105-report.csv'')],
        writes = [], sleeps = 3\<rparr>\<rparr>"
  by (simp add: run_defs csv_message_download exe_message_rejected csv_row csv_message_date
        csv_message_combined)

subsection \<open>The manifest of a run\<close>

text \<open>
  The manifest of every run is the rows, in closed form, of the messages counted as
  processed; and on a message whose media is not a list, that closed form is what the
  manifest invariant asks for.
\<close>

lemma run_manifest_rows:
  assumes "get_entity ev channel_name = Inr chan"
  shows "manifest_of (export_documents ev channel_name output_file max_limit mode outp
           download_dir maxsize_mb allowed_extensions fx) =
         concat (map (rows_of_message chan
                        (or_default allowed_extensions DEFAULT_ALLOWED_EXTENSIONS) maxsize_mb)
           (take (processed_of (export_documents ev channel_name output_file max_limit mode
                    outp download_dir maxsize_mb allowed_extensions fx))
              (iter_messages ev chan max_limit)))"
proof (cases ev channel_name output_file max_limit mode outp download_dir maxsize_mb
    allowed_extensions fx rule: export_documents_cases)
  case (uncaught e)
  then show ?thesis by simp
next
  case (unresolved e)
  then show ?thesis using assms by simp
next
  case (loop_raised chan' e st)
  then have c: "chan' = chan" using assms by simp
  from export_messages_rows[of ev chan "or_default allowed_extensions DEFAULT_ALLOWED_EXTENSIONS"
      maxsize_mb "or_default download_dir (getcwd ev)" mode max_limit
      "iter_messages ev chan max_limit" "initial_state fx"]
  show ?thesis using loop_raised c by (simp add: initial_state_simps)
next
  case (write_raised chan' st e)
  then have c: "chan' = chan" using assms by simp
  from export_messages_rows[of ev chan "or_default allowed_extensions DEFAULT_ALLOWED_EXTENSIONS"
      maxsize_mb "or_default download_dir (getcwd ev)" mode max_limit
      "iter_messages ev chan max_limit" "initial_state fx"]
  show ?thesis using write_raised c by (simp add: initial_state_simps)
next
  case (completed chan' st st')
  then have c: "chan' = chan" using assms by simp
  from write_output_frame[of ev chan output_file outp st] completed c
  have w: "channel_data st' = channel_data st" "processed st' = processed st" by simp_all
  from export_messages_rows[of ev chan "or_default allowed_extensions DEFAULT_ALLOWED_EXTENSIONS"
      maxsize_mb "or_default download_dir (getcwd ev)" mode max_limit
      "iter_messages ev chan max_limit" "initial_state fx"]
  show ?thesis using completed c w by (simp add: initial_state_simps)
qed

lemma single_document_rows:
  assumes "\<forall>l. media m \<noteq> Some (MediaList l)"
  shows "rows_of_message chan al mx m = invariant_rows chan al mx m"
proof (cases "media m")
  case None
  then show ?thesis by (simp add: rows_of_message_def invariant_rows_def attachments_def)
next
  case (Some md)
  show ?thesis
  proof (cases md)
    case (MessageMediaDocument dopt)
    then show ?thesis using Some
      by (cases dopt) (simp_all add: rows_of_message_def invariant_rows_def attachments_def)
  next
    case MessageMediaOther
    then show ?thesis using Some
      by (simp add: rows_of_message_def invariant_rows_def attachments_def)
  next
    case (MediaList l)
    then show ?thesis using Some assms by simp
  qed
qed

lemma two_document_message_rejected:
  "process_message two_document_message chan al mx dd mode fx = Inr ([], fx)"
  by (simp add: process_message_def two_document_message_def)

lemma two_document_run:
  "export_documents (example_env [two_document_message]) ''@news''
     (Some ''20240105-news.json'') 100 ''list'' True None 3072 (Some [''.csv'']) no_effects =
   Completed \<lparr>files_downloaded = 0, files_existed = 0, processed = 1, channel_data = [],
     world = \<lparr>files = {''20240105-news.json''}, probes = [], transfers = [],
       writes = [(''20240105-news.json'', ''News'', [])], sleeps = 1\<rparr>\<rparr>"
  by (simp add: run_defs two_document_message_rejected)

lemma csv_admissible_csv_only: "admissible [''.csv''] 3072 csv_document"
  by (simp add: admissible_def within_limit_def csv_document_def extension_allowed_def
        splitext_def rfind_def lower_def lower_char_def strip_def isspace_def truediv_mib_def
        round_to_53_bits_def Let_def)

lemma exe_not_admissible_csv_only: "\<not> admissible [''.csv''] 3072 exe_document"
  by (simp add: admissible_def exe_document_def extension_allowed_def
        splitext_def rfind_def lower_def lower_char_def strip_def isspace_def)

lemma exe_name: "find_file_name (attributes exe_document) = Some ''setup.exe''"
  by (simp add: exe_document_def strip_def isspace_def)

lemma two_document_invariant_rows:
  "invariant_rows example_channel [''.csv''] 3072 two_document_message =
     [manifest_row example_channel two_document_message ''report.csv'']"
  by (simp add: invariant_rows_def attachments_def attachment_rows_def two_document_message_def
        csv_admissible_csv_only exe_not_admissible_csv_only csv_name(1) exe_name)

subsection \<open>The counters when a transfer raises\<close>

lemma export_files_data_download_raised:
  "export_files_data ev ''download'' m fds st = Inl (e, st') \<Longrightarrow>
   files_downloaded st' + files_existed st' + length (channel_data st) + 1 =
   files_downloaded st + files_existed st + length (channel_data st')"
proof (induction fds arbitrary: st)
  case Nil
  then show ?case by simp
next
  case (Cons fd rest)
  let ?row = "\<lparr>File_Name = file_name fd, Date_Posted = strftime_full (date m),
                Combined_Name = sanitize_filename m (file_name fd), Post_URL = post_url fd\<rparr>"
  let ?st1 = "st\<lparr>channel_data := channel_data st @ [?row]\<rparr>"
  show ?case
  proof (cases "file_exists fd")
    case True
    then have r: "export_files_data ev ''download'' m rest
                    (?st1\<lparr>files_existed := files_existed ?st1 + 1\<rparr>) = Inl (e, st')"
      using Cons.prems by (simp add: Let_def)
    from Cons.IH[OF r] show ?thesis by simp
  next
    case False
    let ?w = "(world ?st1)\<lparr>transfers := transfers (world ?st1) @ [(media m, file_path fd)]\<rparr>"
    show ?thesis
    proof (cases "download_media ev (media m) (file_path fd) (files ?w)")
      case (Inl e0)
      then have "st' = ?st1\<lparr>world := ?w\<rparr>"
        using Cons.prems False by (simp add: Let_def)
      then show ?thesis by simp
    next
      case (Inr fs)
      then have r: "export_files_data ev ''download'' m rest
                      (?st1\<lparr>world := ?w\<lparr>files := fs\<rparr>,
                            files_downloaded := files_downloaded ?st1 + 1\<rparr>) = Inl (e, st')"
        using Cons.prems False by (simp add: Let_def)
      from Cons.IH[OF r] show ?thesis by simp
    qed
  qed
qed

lemma export_message_download_bounds:
  "files_downloaded (final_state (export_message ev chan al mx dd ''download'' m st)) +
   files_existed (final_state (export_message ev chan al mx dd ''download'' m st)) +
   length (channel_data st) \<le>
   files_downloaded st + files_existed st +
   length (channel_data (final_state (export_message ev chan al mx dd ''download'' m st))) \<and>
   files_downloaded st + files_existed st +
   length (channel_data (final_state (export_message ev chan al mx dd ''download'' m st))) \<le>
   files_downloaded (final_state (export_message ev chan al mx dd ''download'' m st)) +
   files_existed (final_state (export_message ev chan al mx dd ''download'' m st)) +
   length (channel_data st) + 1"
proof (cases ev chan al mx dd "''download''" m st rule: export_message_final)
  case (raise_pm e fx')
  then show ?thesis by simp
next
  case (raise_files fds fx' e st2)
  from export_files_data_download_raised[OF raise_files(2)]
  show ?thesis using raise_files(3) by simp
next
  case (ok fds fx' st2)
  from export_files_data_download_counts[OF ok(2)]
  show ?thesis using ok(3) by simp
qed

lemma export_messages_download_bounds:
  "files_downloaded (final_state (export_messages ev chan al mx dd ''download'' ml ms st)) +
   files_existed (final_state (export_messages ev chan al mx dd ''download'' ml ms st)) +
   length (channel_data st) \<le>
   files_downloaded st + files_existed st +
   length (channel_data (final_state (export_messages ev chan al mx dd ''download'' ml ms st))) \<and>
   files_downloaded st + files_existed st +
   length (channel_data (final_state (export_messages ev chan al mx dd ''download'' ml ms st))) \<le>
   files_downloaded (final_state (export_messages ev chan al mx dd ''download'' ml ms st)) +
   files_existed (final_state (export_messages ev chan al mx dd ''download'' ml ms st)) +
   length (channel_data st) + 1"
proof (induction ms arbitrary: st)
  case Nil
  show ?case by simp
next
  case (Cons m rest)
  note b = export_message_download_bounds[of ev chan al mx dd m st]
  show ?case
  proof (cases "export_message ev chan al mx dd ''download'' m st")
    case (Inl err)
    then show ?thesis using b by simp
  next
    case (Inr st3)
    note c3 = export_message_download_counts[OF Inr]
    show ?thesis
    proof (cases "int (processed st3) \<ge> ml")
      case True
      then show ?thesis using Inr c3 by simp
    next
      case False
      then have eq: "export_messages ev chan al mx dd ''download'' ml (m # rest) st =
                     export_messages ev chan al mx dd ''download'' ml rest st3"
        using Inr by simp
      show ?thesis unfolding eq using Cons.IH[of st3] c3 by linarith
    qed
  qed
qed

lemma failing_transfer_run:
  "export_documents failing_transfer_env ''@news'' (Some ''20240105-news.json'') 100
     ''download'' True (Some ''/data'') 3072 None no_effects =
   Caught (ExternalError ''connection lost'')
     \<lparr>files_downloaded = 0, files_existed = 0, processed = 1,
      channel_data = [manifest_row example_channel csv_message ''report.csv''],
      world = \<lparr>files = {}, probes = [''/data/20240105-report.csv''],
        transfers = [(media csv_message, Some ''/data/20240105-report.csv'')],
        writes = [], sleeps = 0\<rparr>\<rparr>"
  by (simp add: run_defs failing_transfer_env_def csv_message_download csv_row csv_message_date
        csv_message_combined)

section \<open>The claims\<close>

subsection \<open>C9: a channel that cannot be resolved\<close>

text \<open>
  Claim C9. When \<^verbatim>\<open>client.get_entity\<close> raises, the run ends during initialisation: it is
  either the failed start of the session, raised to the caller, or the resolution error
  caught by the handler of the run. In both cases no message has been processed, the
  manifest has no row, and the effects are those before the run, so the manifest writer
  (like the file system and the transfer) has not been invoked.
\<close>

theorem resolution_failure_writes_nothing:
  assumes "get_entity ev channel_name = Inl e"
  shows "export_documents ev channel_name output_file max_limit mode outp download_dir
           maxsize_mb allowed_extensions fx =
         (case start ev of Some e0 \<Rightarrow> Uncaught e0 fx | None \<Rightarrow> Caught e (initial_state fx)) \<and>
         manifest_of (export_documents ev channel_name output_file max_limit mode outp
           download_dir maxsize_mb allowed_extensions fx) = [] \<and>
         processed_of (export_documents ev channel_name output_file max_limit mode outp
           download_dir maxsize_mb allowed_extensions fx) = 0 \<and>
         effects_of (export_documents ev channel_name output_file max_limit mode outp
           download_dir maxsize_mb allowed_extensions fx) = fx"
  using assms by (auto simp: export_documents_def initial_state_def split: option.splits)

theorem resolution_failure_writes_nothing_witness:
  "get_entity unresolved_env ''@nowhere'' = Inl (ExternalError ''no such channel'') \<and>
   export_documents unresolved_env ''@nowhere'' (Some ''20240105-nowhere.json'') 100 ''download''
       True None 3072 None no_effects =
     Caught (ExternalError ''no such channel'') (initial_state no_effects) \<and>
   manifest_of (export_documents unresolved_env ''@nowhere'' (Some ''20240105-nowhere.json'') 100
       ''download'' True None 3072 None no_effects) = [] \<and>
   writes (effects_of (export_documents unresolved_env ''@nowhere'' (Some ''20240105-nowhere.json'')
       100 ''download'' True None 3072 None no_effects)) = []"
proof -
  have h: "get_entity unresolved_env ''@nowhere'' = Inl (ExternalError ''no such channel'')"
    by (simp add: unresolved_env_def)
  have s: "start unresolved_env = None"
    by (simp add: unresolved_env_def example_env_def)
  show ?thesis
    using h s resolution_failure_writes_nothing[OF h, of "Some ''20240105-nowhere.json''" 100
        "''download''" True None 3072 None no_effects]
    by (simp add: initial_state_def no_effects_def)
qed

subsection \<open>C4: the number of processed messages\<close>

text \<open>
  Claim C4, as stated, fails: a message whose processing raises ends the run, so fewer
  than \<open>min N M\<close> messages are processed. Here the transport yields two messages and
  the limit is two; the document of the first message is absent, reading its attributes
  raises, and the run ends with one message counted and the second never looked at.
\<close>

theorem run_processes_min_messages_counterexample:
  "export_documents (example_env [broken_message, csv_message]) ''@news''
     (Some ''20240105-news.json'') 2 ''list'' True None 3072 None no_effects =
     Caught AttributeError
       \<lparr>files_downloaded = 0, files_existed = 0, processed = 1, channel_data = [],
        world = no_effects\<rparr> \<and>
   int (processed_of (export_documents (example_env [broken_message, csv_message]) ''@news''
     (Some ''20240105-news.json'') 2 ''list'' True None 3072 None no_effects)) \<noteq>
   min (int (length (iter_messages (example_env [broken_message, csv_message])
                       example_channel 2))) 2"
proof -
  have "export_documents (example_env [broken_message, csv_message]) ''@news''
     (Some ''20240105-news.json'') 2 ''list'' True None 3072 None no_effects =
     Caught AttributeError
       \<lparr>files_downloaded = 0, files_existed = 0, processed = 1, channel_data = [],
        world = no_effects\<rparr>"
    using broken_csv_loop
    by (simp add: export_documents_def or_default_def example_env_simps)
  then show ?thesis by (simp add: example_env_simps)
qed

text \<open>
  Claim C4, amended. When no step of the loop raises, the run processes exactly
  \<open>min N (max 1 M)\<close> of the \<open>N\<close> messages the transport yields for the limit \<open>M\<close>,
  that is \<open>min N M\<close> for every limit \<open>M \<ge> 1\<close> (the limit is tested after a message
  has been processed, so one message is processed even for \<open>M \<le> 0\<close> if the transport
  yields one), and the manifest holds the rows of exactly those first messages.
\<close>

theorem run_processes_bounded_prefix:
  assumes "start ev = None" and "get_entity ev channel_name = Inr chan"
    and "export_messages ev chan (or_default allowed_extensions DEFAULT_ALLOWED_EXTENSIONS)
           maxsize_mb (or_default download_dir (getcwd ev)) mode max_limit
           (iter_messages ev chan max_limit) (initial_state fx) = Inr st"
  shows "int (processed_of (export_documents ev channel_name output_file max_limit mode outp
            download_dir maxsize_mb allowed_extensions fx)) =
           min (int (length (iter_messages ev chan max_limit))) (max 1 max_limit) \<and>
         manifest_of (export_documents ev channel_name output_file max_limit mode outp
           download_dir maxsize_mb allowed_extensions fx) =
         concat (map (rows_of_message chan
                        (or_default allowed_extensions DEFAULT_ALLOWED_EXTENSIONS) maxsize_mb)
           (take (nat (min (int (length (iter_messages ev chan max_limit))) (max 1 max_limit)))
              (iter_messages ev chan max_limit)))"
proof -
  let ?oc = "export_documents ev channel_name output_file max_limit mode outp
            download_dir maxsize_mb allowed_extensions fx"
  let ?al = "or_default allowed_extensions DEFAULT_ALLOWED_EXTENSIONS"
  let ?ms = "iter_messages ev chan max_limit"
  have cnt: "processed st = min (length ?ms) (nat (max 1 max_limit))"
    using export_messages_count[OF assms(3)] by (simp add: initial_state_simps)
  have rows: "channel_data st =
      concat (map (rows_of_message chan ?al maxsize_mb) (take (processed st) ?ms))"
    using export_messages_rows[of ev chan ?al maxsize_mb "or_default download_dir (getcwd ev)"
        mode max_limit ?ms "initial_state fx"] assms(3)
    by (simp add: initial_state_simps)
  have w: "channel_data (final_state (write_output ev chan output_file outp st)) = channel_data st"
     "processed (final_state (write_output ev chan output_file outp st)) = processed st"
    using write_output_frame[of ev chan output_file outp st] by simp_all
  have oc: "manifest_of ?oc = channel_data st \<and> processed_of ?oc = processed st"
    using assms w
    by (cases "write_output ev chan output_file outp st")
       (auto simp: export_documents_def split: sum.splits)
  have pi: "int (processed st) = min (int (length ?ms)) (max 1 max_limit)"
    using cnt by auto
  then have "nat (min (int (length ?ms)) (max 1 max_limit)) = processed st"
    by (metis nat_int)
  then show ?thesis using oc rows pi by simp
qed

theorem run_processes_bounded_prefix_witness:
  "start (example_env [csv_message, exe_message, csv_message]) = None \<and>
   get_entity (example_env [csv_message, exe_message, csv_message]) ''@news'' =
     Inr example_channel \<and>
   length (iter_messages (example_env [csv_message, exe_message, csv_message])
             example_channel 2) = 3 \<and>
   processed_of (export_documents (example_env [csv_message, exe_message, csv_message])
     ''@news'' (Some ''20240105-news.json'') 2 ''list'' True None 3072 None no_effects) = 2 \<and>
   manifest_of (export_documents (example_env [csv_message, exe_message, csv_message])
     ''@news'' (Some ''20240105-news.json'') 2 ''list'' True None 3072 None no_effects) =
     [manifest_row example_channel csv_message ''report.csv'']"
proof -
  let ?ev = "example_env [csv_message, exe_message, csv_message]"
  have s: "start ?ev = None" and g: "get_entity ?ev ''@news'' = Inr example_channel"
    by (simp_all add: example_env_simps)
  have l: "export_messages ?ev example_channel (or_default None DEFAULT_ALLOWED_EXTENSIONS)
           3072 (or_default None (getcwd ?ev)) ''list'' 2
           (iter_messages ?ev example_channel 2) (initial_state no_effects) =
         Inr \<lparr>files_downloaded = 0, files_existed = 0, processed = 2,
           channel_data = [manifest_row example_channel csv_message ''report.csv''],
           world = \<lparr>files = {}, probes = [], transfers = [], writes = [], sleeps = 2\<rparr>\<rparr>"
    using three_messages_limit_two_loop by (simp add: or_default_def example_env_simps)
  show ?thesis
    using s g run_processes_bounded_prefix[OF s g l, of "Some ''20240105-news.json''" True]
    by (simp add: example_env_simps or_default_def csv_rows_of_message exe_rows_of_message)
qed

subsection \<open>C2: a failure while a message is processed\<close>

text \<open>
  Claim C2, as stated, fails: the only handler is the one around the whole run. Here the
  second of three messages has no document; reading its attributes raises, the handler
  of the run catches the exception, the third message is never processed and the
  manifest, although output is requested, is not written.
\<close>

theorem failure_does_not_abort_counterexample:
  "export_documents (example_env [csv_message, broken_message, csv_message]) ''@news''
     (Some ''20240105-news.json'') 100 ''list'' True None 3072 None no_effects =
   Caught AttributeError
     \<lparr>files_downloaded = 0, files_existed = 0, processed = 2,
      channel_data = [manifest_row example_channel csv_message ''report.csv''],
      world = \<lparr>files = {}, probes = [], transfers = [], writes = [], sleeps = 1\<rparr>\<rparr>"
  using csv_broken_csv_loop
  by (simp add: export_documents_def or_default_def example_env_simps)

text \<open>
  Claim C2, amended. An exception raised while a message is processed, or while one of
  its files is transferred, does not escape the run: the handler of the run catches it.
  It does end the run: the run stops in the state reached at the exception, the messages
  after the one that raised play no part in it, and the manifest writer is not invoked.
\<close>

theorem failure_is_caught_and_ends_run:
  assumes "start ev = None" and "get_entity ev channel_name = Inr chan"
    and "export_messages ev chan (or_default allowed_extensions DEFAULT_ALLOWED_EXTENSIONS)
           maxsize_mb (or_default download_dir (getcwd ev)) mode max_limit
           (iter_messages ev chan max_limit) (initial_state fx) = Inl (e, st)"
  shows "export_documents ev channel_name output_file max_limit mode outp download_dir
           maxsize_mb allowed_extensions fx = Caught e st \<and>
         writes (world st) = writes fx \<and>
         export_messages ev chan (or_default allowed_extensions DEFAULT_ALLOWED_EXTENSIONS)
           maxsize_mb (or_default download_dir (getcwd ev)) mode max_limit
           (take (processed st) (iter_messages ev chan max_limit)) (initial_state fx) =
           Inl (e, st)"
proof -
  have a: "export_documents ev channel_name output_file max_limit mode outp download_dir
           maxsize_mb allowed_extensions fx = Caught e st"
    using assms by (simp add: export_documents_def)
  have b: "writes (world st) = writes fx"
    using export_messages_writes[of ev chan
        "or_default allowed_extensions DEFAULT_ALLOWED_EXTENSIONS" maxsize_mb
        "or_default download_dir (getcwd ev)" mode max_limit "iter_messages ev chan max_limit"
        "initial_state fx"] assms(3)
    by (simp add: initial_state_simps)
  have c: "export_messages ev chan (or_default allowed_extensions DEFAULT_ALLOWED_EXTENSIONS)
           maxsize_mb (or_default download_dir (getcwd ev)) mode max_limit
           (take (processed st) (iter_messages ev chan max_limit)) (initial_state fx) =
           Inl (e, st)"
    using export_messages_raised_prefix[OF assms(3)] by (simp add: initial_state_simps)
  show ?thesis using a b c by simp
qed

theorem failure_is_caught_and_ends_run_witness:
  "start (example_env [csv_message, broken_message, csv_message]) = None \<and>
   get_entity (example_env [csv_message, broken_message, csv_message]) ''@news'' =
     Inr example_channel \<and>
   export_documents (example_env [csv_message, broken_message, csv_message]) ''@news''
       (Some ''20240105-news.json'') 100 ''list'' True None 3072 None no_effects =
     Caught AttributeError
       \<lparr>files_downloaded = 0, files_existed = 0, processed = 2,
        channel_data = [manifest_row example_channel csv_message ''report.csv''],
        world = \<lparr>files = {}, probes = [], transfers = [], writes = [], sleeps = 1\<rparr>\<rparr> \<and>
   export_messages (example_env [csv_message, broken_message, csv_message]) example_channel
       DEFAULT_ALLOWED_EXTENSIONS 3072 ''/home/user'' ''list'' 100
       [csv_message, broken_message] (initial_state no_effects) =
     Inl (AttributeError,
       \<lparr>files_downloaded = 0, files_existed = 0, processed = 2,
        channel_data = [manifest_row example_channel csv_message ''report.csv''],
        world = \<lparr>files = {}, probes = [], transfers = [], writes = [], sleeps = 1\<rparr>\<rparr>)"
proof -
  let ?ev = "example_env [csv_message, broken_message, csv_message]"
  let ?st = "\<lparr>files_downloaded = 0, files_existed = 0, processed = 2,
      channel_data = [manifest_row example_channel csv_message ''report.csv''],
      world = \<lparr>files = {}, probes = [], transfers = [], writes = [], sleeps = 1\<rparr>\<rparr>"
  have s: "start ?ev = None" and g: "get_entity ?ev ''@news'' = Inr example_channel"
    by (simp_all add: example_env_simps)
  have l: "export_messages ?ev example_channel (or_default None DEFAULT_ALLOWED_EXTENSIONS)
           3072 (or_default None (getcwd ?ev)) ''list'' 100
           (iter_messages ?ev example_channel 100) (initial_state no_effects) =
         Inl (AttributeError, ?st)"
    using csv_broken_csv_loop by (simp add: or_default_def example_env_simps)
  show ?thesis
    using s g failure_is_caught_and_ends_run[OF s g l, of "Some ''20240105-news.json''" True]
    by (simp add: example_env_simps or_default_def)
qed

subsection \<open>C3: a message with two documents\<close>

text \<open>
  Claim C3 describes what the loop over the documents of a message does: of the two
  documents \<^verbatim>\<open>report.csv\<close> and \<^verbatim>\<open>setup.exe\<close>, with only \<^verbatim>\<open>.csv\<close> allowed, it keeps
  exactly the first. The function never reaches the loop with them: media that is a list
  is not a \<^verbatim>\<open>MessageMediaDocument\<close>, so the guard at the head of \<^verbatim>\<open>process_message\<close>
  returns the empty list for the message.
\<close>

theorem two_documents_yield_nothing:
  "process_message two_document_message example_channel [''.csv''] 3072 ''/home/user'' ''list''
     no_effects = Inr ([], no_effects) \<and>
   process_docs two_document_message example_channel [''.csv''] 3072 ''/home/user'' ''list''
     [MessageMediaDocument (Some csv_document), MessageMediaDocument (Some exe_document)] []
     no_effects =
   Inr ([\<lparr>file_name = ''report.csv'', file_path = None, post_url = ''https://t.me/news/44'',
         file_exists = False, fsize_mb = 1\<rparr>], no_effects)"
  using two_documents_loop by (simp add: process_message_def two_document_message_def)

theorem two_documents_yield_nothing_witness:
  "truthy (MediaList [MessageMediaDocument (Some csv_document),
                      MessageMediaDocument (Some exe_document)]) \<and>
   \<not> is_MessageMediaDocument (MediaList [MessageMediaDocument (Some csv_document),
                                          MessageMediaDocument (Some exe_document)]) \<and>
   process_message two_document_message example_channel [''.csv''] 3072 ''/home/user'' ''list''
     no_effects = Inr ([], no_effects)"
  using two_documents_yield_nothing by simp

subsection \<open>C5: the size check\<close>

text \<open>
  Claim C5. For a document that has passed the name and extension checks, the document
  is accepted if and only if its computed size in MiB is at most the limit: the source
  skips it only when the size is strictly greater. The computed size is the true
  quotient \<open>b / (1024 * 1024)\<close> for every size below \<open>2^53\<close> bytes, where the division
  is exact; in particular a size exactly at the limit is accepted.
\<close>

theorem size_check_non_strict:
  assumes "find_file_name (attributes d) = Some fname" and "fname \<noteq> []"
    and "extension_allowed (lower (snd (splitext fname))) allowed_extensions"
  shows "(accepted (process_doc m chan allowed_extensions maxsize_mb dd mode
                     (MessageMediaDocument (Some d)) fx) \<longleftrightarrow>
            within_limit (doc_size d) maxsize_mb) \<and>
         (\<bar>doc_size d\<bar> < 2 ^ 53 \<longrightarrow>
            (accepted (process_doc m chan allowed_extensions maxsize_mb dd mode
                       (MessageMediaDocument (Some d)) fx) \<longleftrightarrow>
             of_int (doc_size d) / (1024 * 1024) \<le> (of_int maxsize_mb :: rat))) \<and>
         (\<bar>doc_size d\<bar> < 2 ^ 53 \<and>
          of_int (doc_size d) / (1024 * 1024) = (of_int maxsize_mb :: rat) \<longrightarrow>
            accepted (process_doc m chan allowed_extensions maxsize_mb dd mode
                       (MessageMediaDocument (Some d)) fx))"
proof -
  have a: "accepted (process_doc m chan allowed_extensions maxsize_mb dd mode
                     (MessageMediaDocument (Some d)) fx) \<longleftrightarrow>
            within_limit (doc_size d) maxsize_mb"
    using assms
    by (auto simp: process_doc_def within_limit_def Let_def split: sum.splits)
  have b: "within_limit (doc_size d) maxsize_mb \<longleftrightarrow>
             of_int (doc_size d) / (1024 * 1024) \<le> (of_int maxsize_mb :: rat)"
    if "\<bar>doc_size d\<bar> < 2 ^ 53"
    using truediv_mib_exact[OF that] by (simp add: within_limit_def)
  show ?thesis using a b by auto
qed

theorem size_check_non_strict_witness:
  "find_file_name (attributes csv_document) = Some ''report.csv'' \<and>
   extension_allowed (lower (snd (splitext ''report.csv''))) [''.CSV''] \<and>
   \<bar>doc_size csv_document\<bar> < 2 ^ 53 \<and>
   of_int (doc_size csv_document) / (1024 * 1024) = (of_int 1 :: rat) \<and>
   accepted (process_doc csv_message example_channel [''.CSV''] 1 ''/home/user'' ''list''
              (MessageMediaDocument (Some csv_document)) no_effects)"
proof -
  have n: "find_file_name (attributes csv_document) = Some ''report.csv''"
    by (rule csv_name(1))
  have ne: "''report.csv'' \<noteq> []" by simp
  have x: "extension_allowed (lower (snd (splitext ''report.csv''))) [''.CSV'']"
    unfolding csv_name(2) by (simp add: extension_allowed_def lower_def lower_char_def)
  have s: "\<bar>doc_size csv_document\<bar> < 2 ^ 53"
    "of_int (doc_size csv_document) / (1024 * 1024) = (of_int 1 :: rat)"
    by (simp_all add: csv_document_def)
  show ?thesis
    using n x s size_check_non_strict[OF n ne x, of csv_message example_channel 1
        "''/home/user''" "''list''" no_effects]
    by auto
qed

subsection \<open>C6: the empty extension\<close>

text \<open>
  Claim C6, as stated, fails: the extension is looked up in the lower-cased list as it
  is, and nothing excludes the empty string. With the allowed extensions \<^verbatim>\<open>""\<close> and
  \<^verbatim>\<open>".csv"\<close> the file \<^verbatim>\<open>README\<close>, whose extension is empty, is accepted.
\<close>

theorem empty_extension_never_allowed_counterexample:
  "extension_allowed [] [[], ''.csv''] \<and>
   lower (snd (splitext ''README'')) = [] \<and>
   process_message readme_message example_channel [[], ''.csv''] 3072 ''/home/user'' ''list''
     no_effects =
   Inr ([\<lparr>file_name = ''README'', file_path = None, post_url = ''https://t.me/news/40'',
         file_exists = False, fsize_mb = 2\<rparr>], no_effects)"
  by (simp add: process_message_def process_doc_def extension_allowed_def splitext_def
        rfind_def lower_def lower_char_def strip_def isspace_def truediv_mib_def
        round_to_53_bits_def str_int_def str_nat.simps digit_char_def get_post_url_def
        Let_def readme_message_def readme_document_def example_channel_def)

text \<open>
  Claim C6, amended. A file name with an empty or missing extension is allowed exactly
  when the allowed list contains the empty string; for every list without it, such as
  the default list, the document is skipped and nothing else happens.
\<close>

theorem empty_extension_allowed_iff_listed:
  assumes "find_file_name (attributes d) = Some fname" and "snd (splitext fname) = []"
  shows "(extension_allowed (lower (snd (splitext fname))) allowed_extensions \<longleftrightarrow>
            [] \<in> set allowed_extensions) \<and>
         ([] \<notin> set allowed_extensions \<longrightarrow>
            process_doc m chan allowed_extensions maxsize_mb dd mode
              (MessageMediaDocument (Some d)) fx = Inr (None, fx))"
proof -
  have a: "extension_allowed (lower (snd (splitext fname))) allowed_extensions \<longleftrightarrow>
            [] \<in> set allowed_extensions"
    using assms(2) by (auto simp: extension_allowed_def lower_def)
  then show ?thesis using assms(1) by (auto simp: process_doc_def)
qed

theorem empty_extension_allowed_iff_listed_witness:
  "find_file_name (attributes readme_document) = Some ''README'' \<and>
   snd (splitext ''README'') = [] \<and>
   [] \<notin> set DEFAULT_ALLOWED_EXTENSIONS \<and>
   \<not> extension_allowed (lower (snd (splitext ''README''))) DEFAULT_ALLOWED_EXTENSIONS \<and>
   process_doc readme_message example_channel DEFAULT_ALLOWED_EXTENSIONS 3072 ''/home/user''
     ''list'' (MessageMediaDocument (Some readme_document)) no_effects = Inr (None, no_effects)"
proof -
  have d: "[] \<notin> set DEFAULT_ALLOWED_EXTENSIONS"
    by (simp add: DEFAULT_ALLOWED_EXTENSIONS_def)
  show ?thesis
    using d readme_name empty_extension_allowed_iff_listed[OF readme_name,
        of DEFAULT_ALLOWED_EXTENSIONS readme_message example_channel 3072 "''/home/user''"
        "''list''" no_effects]
    by simp
qed

subsection \<open>C8: list mode\<close>

text \<open>
  Claim C8. In list mode \<^verbatim>\<open>process_message\<close> leaves the effects as they were, whether it
  raises or returns, so it neither probes nor changes the file system, and every
  \<open>file_data\<close> it returns has no file path and \<open>file_exists = False\<close>.
\<close>

theorem list_mode_never_touches_files:
  "(case process_message m chan allowed_extensions maxsize_mb dd ''list'' fx of
      Inl (e, fx') \<Rightarrow> fx' = fx
    | Inr (fds, fx') \<Rightarrow>
        fx' = fx \<and> list_all (\<lambda>fd. file_path fd = None \<and> \<not> file_exists fd) fds)"
proof (cases "process_message m chan allowed_extensions maxsize_mb dd ''list'' fx")
  case (Inl a)
  obtain e fx' where a: "a = (e, fx')" by (cases a)
  show ?thesis using Inl a process_message_effects(1)[of m chan allowed_extensions maxsize_mb dd
      "''list''" fx e fx'] by simp
next
  case (Inr b)
  obtain fds fx' where b: "b = (fds, fx')" by (cases b)
  have "''list'' \<noteq> ''download''" by simp
  from process_message_not_download[OF this, of m chan allowed_extensions maxsize_mb dd fx fds fx']
  show ?thesis using Inr b by simp
qed

theorem list_mode_never_touches_files_witness:
  "process_message csv_message example_channel DEFAULT_ALLOWED_EXTENSIONS 3072 ''/home/user''
     ''list'' report_present =
   Inr ([\<lparr>file_name = ''report.csv'', file_path = None, post_url = ''https://t.me/news/42'',
         file_exists = False, fsize_mb = 1\<rparr>], report_present) \<and>
   (case process_message csv_message example_channel DEFAULT_ALLOWED_EXTENSIONS 3072
           ''/home/user'' ''list'' report_present of
      Inl (e, fx') \<Rightarrow> fx' = report_present
    | Inr (fds, fx') \<Rightarrow>
        fx' = report_present \<and>
        list_all (\<lambda>fd. file_path fd = None \<and> \<not> file_exists fd) fds)"
  using list_mode_never_touches_files[where m = csv_message and chan = example_channel
      and allowed_extensions = DEFAULT_ALLOWED_EXTENSIONS and maxsize_mb = 3072
      and dd = "''/home/user''" and fx = report_present]
    csv_message_list[of report_present]
  by simp

subsection \<open>C7: a file that is already present\<close>

text \<open>
  Claim C7. In download mode, for a message with an admissible attachment, let \<open>p\<close> be
  the destination path, the download directory joined with the combined name. If \<open>p\<close>
  exists, processing the message returns without any call of the transfer, the file
  system is unchanged, and \<open>files_existed\<close> is incremented while \<open>files_downloaded\<close> is
  not. If \<open>p\<close> does not exist, the transfer is called once, for the media of the message
  and \<open>p\<close>, and \<open>files_existed\<close> is unchanged; when the transfer returns,
  \<open>files_downloaded\<close> is incremented, and when it raises, the exception leaves the loop
  body with \<open>files_downloaded\<close> unchanged.
\<close>

theorem download_mode_skips_existing_file:
  assumes "media m = Some (MessageMediaDocument (Some d))"
    and "find_file_name (attributes d) = Some fname"
    and "admissible al mx d"
  shows "(path_join dd (sanitize_filename m fname) \<in> files (world st) \<longrightarrow>
            \<not> isl (export_message ev chan al mx dd ''download'' m st) \<and>
            transfers (world (final_state (export_message ev chan al mx dd ''download'' m st))) =
              transfers (world st) \<and>
            files (world (final_state (export_message ev chan al mx dd ''download'' m st))) =
              files (world st) \<and>
            files_existed (final_state (export_message ev chan al mx dd ''download'' m st)) =
              files_existed st + 1 \<and>
            files_downloaded (final_state (export_message ev chan al mx dd ''download'' m st)) =
              files_downloaded st) \<and>
         (path_join dd (sanitize_filename m fname) \<notin> files (world st) \<longrightarrow>
            transfers (world (final_state (export_message ev chan al mx dd ''download'' m st))) =
              transfers (world st) @ [(media m, Some (path_join dd (sanitize_filename m fname)))] \<and>
            files_existed (final_state (export_message ev chan al mx dd ''download'' m st)) =
              files_existed st \<and>
            (case download_media ev (media m) (Some (path_join dd (sanitize_filename m fname)))
                    (files (world st)) of
               Inr fs \<Rightarrow>
                 \<not> isl (export_message ev chan al mx dd ''download'' m st) \<and>
                 files_downloaded (final_state (export_message ev chan al mx dd ''download'' m st)) =
                   files_downloaded st + 1 \<and>
                 files (world (final_state (export_message ev chan al mx dd ''download'' m st))) = fs
             | Inl e \<Rightarrow>
                 isl (export_message ev chan al mx dd ''download'' m st) \<and>
                 files_downloaded (final_state (export_message ev chan al mx dd ''download'' m st)) =
                   files_downloaded st))"
proof -
  let ?p = "path_join dd (sanitize_filename m fname)"
  have pm: "process_message m chan al mx dd ''download'' fx =
      Inr ([\<lparr>file_name = fname, file_path = Some ?p, post_url = get_post_url chan m,
             file_exists = (?p \<in> files fx),
             fsize_mb = projr (truediv_mib (doc_size d))\<rparr>],
           fx\<lparr>probes := probes fx @ [?p]\<rparr>)" for fx
    using process_doc_admissible[OF assms(3) assms(2), of m chan dd "''download''" fx]
    by (simp add: process_message_document[OF assms(1)])
  show ?thesis
    by (cases "download_media ev (media m) (Some ?p) (files (world st))")
       (simp_all add: export_message_def pm Let_def)
qed

theorem download_mode_skips_existing_file_witness:
  "media csv_message = Some (MessageMediaDocument (Some csv_document)) \<and>
   find_file_name (attributes csv_document) = Some ''report.csv'' \<and>
   admissible DEFAULT_ALLOWED_EXTENSIONS 3072 csv_document \<and>
   path_join ''/data'' (sanitize_filename csv_message ''report.csv'') \<in>
     files (world (initial_state report_present)) \<and>
   transfers (world (final_state (export_message (example_env [csv_message]) example_channel
     DEFAULT_ALLOWED_EXTENSIONS 3072 ''/data'' ''download'' csv_message
     (initial_state report_present)))) = [] \<and>
   files_existed (final_state (export_message (example_env [csv_message]) example_channel
     DEFAULT_ALLOWED_EXTENSIONS 3072 ''/data'' ''download'' csv_message
     (initial_state report_present))) = 1 \<and>
   files_downloaded (final_state (export_message (example_env [csv_message]) example_channel
     DEFAULT_ALLOWED_EXTENSIONS 3072 ''/data'' ''download'' csv_message
     (initial_state report_present))) = 0 \<and>
   path_join ''/data'' (sanitize_filename csv_message ''report.csv'') \<notin>
     files (world (initial_state no_effects)) \<and>
   transfers (world (final_state (export_message (example_env [csv_message]) example_channel
     DEFAULT_ALLOWED_EXTENSIONS 3072 ''/data'' ''download'' csv_message
     (initial_state no_effects)))) =
     [(media csv_message, Some ''/data/20240105-report.csv'')] \<and>
   files_existed (final_state (export_message (example_env [csv_message]) example_channel
     DEFAULT_ALLOWED_EXTENSIONS 3072 ''/data'' ''download'' csv_message
     (initial_state no_effects))) = 0 \<and>
   files_downloaded (final_state (export_message (example_env [csv_message]) example_channel
     DEFAULT_ALLOWED_EXTENSIONS 3072 ''/data'' ''download'' csv_message
     (initial_state no_effects))) = 1"
proof -
  have h1: "media csv_message = Some (MessageMediaDocument (Some csv_document))"
    by (simp add: csv_message_def)
  have h2: "find_file_name (attributes csv_document) = Some ''report.csv''"
    by (rule csv_name(1))
  have d: "download_media (example_env [csv_message]) md (Some q) fs = Inr (insert q fs)"
    for md q fs
    by (simp add: example_env_def)
  show ?thesis
    using h1 h2 csv_admissible
      download_mode_skips_existing_file[OF h1 h2 csv_admissible, of "''/data''"
        "initial_state report_present" "example_env [csv_message]" example_channel]
      download_mode_skips_existing_file[OF h1 h2 csv_admissible, of "''/data''"
        "initial_state no_effects" "example_env [csv_message]" example_channel]
    by (simp add: csv_path initial_state_simps report_present_def no_effects_def d)
qed

subsection \<open>C1: the manifest invariant\<close>

text \<open>
  Claim C1 asks, of every attachment, that a manifest row is appended for it if and only
  if it has a non-empty file name, an allowed extension and a size within the ceiling.
  The code breaks it for the attachments of a message whose media is a list: the message
  below carries \<^verbatim>\<open>report.csv\<close> and \<^verbatim>\<open>setup.exe\<close>, only \<^verbatim>\<open>.csv\<close> is allowed, the first
  attachment passes all three conditions and the invariant asks for its row, but the
  run, which processes the message and completes, writes an empty manifest. It is the
  defect shown under C3: the guard of \<^verbatim>\<open>process_message\<close> returns before the loop over
  the documents. (On every message whose media is not a list the invariant holds, by
  \<open>run_manifest_rows\<close> and \<open>single_document_rows\<close>.)
\<close>

theorem manifest_misses_list_attachment:
  "attachments (media two_document_message) = [csv_document, exe_document] \<and>
   admissible [''.csv''] 3072 csv_document \<and>
   invariant_rows example_channel [''.csv''] 3072 two_document_message =
     [manifest_row example_channel two_document_message ''report.csv''] \<and>
   export_documents (example_env [two_document_message]) ''@news''
     (Some ''20240105-news.json'') 100 ''list'' True None 3072 (Some [''.csv'']) no_effects =
   Completed \<lparr>files_downloaded = 0, files_existed = 0, processed = 1, channel_data = [],
     world = \<lparr>files = {''20240105-news.json''}, probes = [], transfers = [],
       writes = [(''20240105-news.json'', ''News'', [])], sleeps = 1\<rparr>\<rparr>"
  using csv_admissible_csv_only two_document_invariant_rows two_document_run
  by (simp add: attachments_def two_document_message_def)

theorem manifest_misses_list_attachment_witness:
  "processed_of (export_documents (example_env [two_document_message]) ''@news''
     (Some ''20240105-news.json'') 100 ''list'' True None 3072 (Some [''.csv'']) no_effects) = 1 \<and>
   manifest_of (export_documents (example_env [two_document_message]) ''@news''
     (Some ''20240105-news.json'') 100 ''list'' True None 3072 (Some [''.csv'']) no_effects) = [] \<and>
   invariant_rows example_channel [''.csv''] 3072 two_document_message \<noteq> []"
  using manifest_misses_list_attachment by simp

subsection \<open>C10: the two counters and the manifest\<close>

text \<open>
  Claim C10, as stated, fails: the row of a file is appended before the file is
  transferred, and a transfer that raises ends the run before either counter is
  incremented. Here the one message has an admissible attachment that is not yet
  present and the transfer raises: the manifest has one row and both counters are zero.
\<close>

theorem counters_match_manifest_counterexample:
  "export_documents failing_transfer_env ''@news'' (Some ''20240105-news.json'') 100
     ''download'' True (Some ''/data'') 3072 None no_effects =
   Caught (ExternalError ''connection lost'')
     \<lparr>files_downloaded = 0, files_existed = 0, processed = 1,
      channel_data = [manifest_row example_channel csv_message ''report.csv''],
      world = \<lparr>files = {}, probes = [''/data/20240105-report.csv''],
        transfers = [(media csv_message, Some ''/data/20240105-report.csv'')],
        writes = [], sleeps = 0\<rparr>\<rparr> \<and>
   fst (counters_of (export_documents failing_transfer_env ''@news''
          (Some ''20240105-news.json'') 100 ''download'' True (Some ''/data'') 3072 None
          no_effects)) +
   snd (counters_of (export_documents failing_transfer_env ''@news''
          (Some ''20240105-news.json'') 100 ''download'' True (Some ''/data'') 3072 None
          no_effects)) \<noteq>
   length (manifest_of (export_documents failing_transfer_env ''@news''
          (Some ''20240105-news.json'') 100 ''download'' True (Some ''/data'') 3072 None
          no_effects))"
  by (simp add: failing_transfer_run)

text \<open>
  Claim C10, amended. In download mode every appended row increments exactly one of the
  two counters, except the last row when its transfer raises: at the end of every run
  the sum of the counters is the number of manifest rows or one less, and it is the
  number of manifest rows whenever the loop over the messages has completed without an
  exception. In list mode both counters are zero however the run ends.
\<close>

theorem counters_match_manifest:
  "(fst (counters_of (export_documents ev channel_name output_file max_limit ''download''
           outp download_dir maxsize_mb allowed_extensions fx)) +
    snd (counters_of (export_documents ev channel_name output_file max_limit ''download''
           outp download_dir maxsize_mb allowed_extensions fx)) \<le>
    length (manifest_of (export_documents ev channel_name output_file max_limit ''download''
           outp download_dir maxsize_mb allowed_extensions fx)) \<and>
    length (manifest_of (export_documents ev channel_name output_file max_limit ''download''
           outp download_dir maxsize_mb allowed_extensions fx)) \<le>
    fst (counters_of (export_documents ev channel_name output_file max_limit ''download''
           outp download_dir maxsize_mb allowed_extensions fx)) +
    snd (counters_of (export_documents ev channel_name output_file max_limit ''download''
           outp download_dir maxsize_mb allowed_extensions fx)) + 1) \<and>
   (start ev = None \<and> get_entity ev channel_name = Inr chan \<and>
    \<not> isl (export_messages ev chan (or_default allowed_extensions DEFAULT_ALLOWED_EXTENSIONS)
             maxsize_mb (or_default download_dir (getcwd ev)) ''download'' max_limit
             (iter_messages ev chan max_limit) (initial_state fx)) \<longrightarrow>
      fst (counters_of (export_documents ev channel_name output_file max_limit ''download''
             outp download_dir maxsize_mb allowed_extensions fx)) +
      snd (counters_of (export_documents ev channel_name output_file max_limit ''download''
             outp download_dir maxsize_mb allowed_extensions fx)) =
      length (manifest_of (export_documents ev channel_name output_file max_limit ''download''
             outp download_dir maxsize_mb allowed_extensions fx))) \<and>
   counters_of (export_documents ev channel_name output_file max_limit ''list'' outp
      download_dir maxsize_mb allowed_extensions fx) = (0, 0)"
proof -
  let ?dl = "export_documents ev channel_name output_file max_limit ''download''
           outp download_dir maxsize_mb allowed_extensions fx"
  have bd: "fst (counters_of ?dl) + snd (counters_of ?dl) \<le> length (manifest_of ?dl) \<and>
            length (manifest_of ?dl) \<le> fst (counters_of ?dl) + snd (counters_of ?dl) + 1"
  proof (cases ev channel_name output_file max_limit "''download''" outp download_dir
      maxsize_mb allowed_extensions fx rule: export_documents_cases)
    case (uncaught e)
    then show ?thesis by simp
  next
    case (unresolved e)
    then show ?thesis by (simp add: initial_state_simps)
  next
    case (loop_raised chan' e st)
    from export_messages_download_bounds[of ev chan'
        "or_default allowed_extensions DEFAULT_ALLOWED_EXTENSIONS" maxsize_mb
        "or_default download_dir (getcwd ev)" max_limit "iter_messages ev chan' max_limit"
        "initial_state fx"]
    show ?thesis using loop_raised by (simp add: initial_state_simps)
  next
    case (write_raised chan' st e)
    from export_messages_download_bounds[of ev chan'
        "or_default allowed_extensions DEFAULT_ALLOWED_EXTENSIONS" maxsize_mb
        "or_default download_dir (getcwd ev)" max_limit "iter_messages ev chan' max_limit"
        "initial_state fx"]
    show ?thesis using write_raised by (simp add: initial_state_simps)
  next
    case (completed chan' st st')
    from export_messages_download_bounds[of ev chan'
        "or_default allowed_extensions DEFAULT_ALLOWED_EXTENSIONS" maxsize_mb
        "or_default download_dir (getcwd ev)" max_limit "iter_messages ev chan' max_limit"
        "initial_state fx"]
      write_output_frame[of ev chan' output_file outp st]
    show ?thesis using completed by (simp add: initial_state_simps)
  qed
  have dl: "fst (counters_of ?dl) + snd (counters_of ?dl) = length (manifest_of ?dl)"
    if s: "start ev = None" and g: "get_entity ev channel_name = Inr chan"
      and l: "\<not> isl (export_messages ev chan (or_default allowed_extensions DEFAULT_ALLOWED_EXTENSIONS)
             maxsize_mb (or_default download_dir (getcwd ev)) ''download'' max_limit
             (iter_messages ev chan max_limit) (initial_state fx))"
  proof -
    from l obtain st where st:
      "export_messages ev chan (or_default allowed_extensions DEFAULT_ALLOWED_EXTENSIONS)
         maxsize_mb (or_default download_dir (getcwd ev)) ''download'' max_limit
         (iter_messages ev chan max_limit) (initial_state fx) = Inr st"
      by (cases "export_messages ev chan (or_default allowed_extensions DEFAULT_ALLOWED_EXTENSIONS)
             maxsize_mb (or_default download_dir (getcwd ev)) ''download'' max_limit
             (iter_messages ev chan max_limit) (initial_state fx)") auto
    have c: "files_downloaded st + files_existed st = length (channel_data st)"
      using export_messages_download_counts[OF st] by (simp add: initial_state_simps)
    note w = write_output_frame[of ev chan output_file outp st]
    show ?thesis
      using s g st c w
      by (cases "write_output ev chan output_file outp st")
         (auto simp: export_documents_def split: sum.splits)
  qed
  have li: "counters_of (export_documents ev channel_name output_file max_limit ''list'' outp
      download_dir maxsize_mb allowed_extensions fx) = (0, 0)"
  proof (cases ev channel_name output_file max_limit "''list''" outp download_dir maxsize_mb
      allowed_extensions fx rule: export_documents_cases)
    case (uncaught e)
    then show ?thesis by simp
  next
    case (unresolved e)
    then show ?thesis by (simp add: initial_state_simps)
  next
    case (loop_raised chan' e st)
    have "''list'' \<noteq> ''download''" by simp
    from export_messages_not_download_counts[OF this, of ev chan'
        "or_default allowed_extensions DEFAULT_ALLOWED_EXTENSIONS" maxsize_mb
        "or_default download_dir (getcwd ev)" max_limit "iter_messages ev chan' max_limit"
        "initial_state fx"]
    show ?thesis using loop_raised by (simp add: initial_state_simps)
  next
    case (write_raised chan' st e)
    have "''list'' \<noteq> ''download''" by simp
    from export_messages_not_download_counts[OF this, of ev chan'
        "or_default allowed_extensions DEFAULT_ALLOWED_EXTENSIONS" maxsize_mb
        "or_default download_dir (getcwd ev)" max_limit "iter_messages ev chan' max_limit"
        "initial_state fx"]
    show ?thesis using write_raised by (simp add: initial_state_simps)
  next
    case (completed chan' st st')
    have "''list'' \<noteq> ''download''" by simp
    from export_messages_not_download_counts[OF this, of ev chan'
        "or_default allowed_extensions DEFAULT_ALLOWED_EXTENSIONS" maxsize_mb
        "or_default download_dir (getcwd ev)" max_limit "iter_messages ev chan' max_limit"
        "initial_state fx"]
      write_output_frame[of ev chan' output_file outp st]
    show ?thesis using completed by (simp add: initial_state_simps)
  qed
  show ?thesis using bd dl li by blast
qed

theorem counters_match_manifest_witness:
  "start (example_env [csv_message, exe_message, csv_message]) = None \<and>
   get_entity (example_env [csv_message, exe_message, csv_message]) ''@news'' =
     Inr example_channel \<and>
   \<not> isl (export_messages (example_env [csv_message, exe_message, csv_message]) example_channel
           (or_default None DEFAULT_ALLOWED_EXTENSIONS) 3072
           (or_default (Some ''/data'') (getcwd (example_env [csv_message, exe_message, csv_message])))
           ''download'' 100
           (iter_messages (example_env [csv_message, exe_message, csv_message]) example_channel 100)
           (initial_state no_effects)) \<and>
   counters_of (export_documents (example_env [csv_message, exe_message, csv_message]) ''@news''
     (Some ''20240105-news.json'') 100 ''download'' True (Some ''/data'') 3072 None no_effects) =
     (1, 1) \<and>
   length (manifest_of (export_documents (example_env [csv_message, exe_message, csv_message])
     ''@news'' (Some ''20240105-news.json'') 100 ''download'' True (Some ''/data'') 3072 None
     no_effects)) = 2 \<and>
   counters_of (export_documents (example_env [csv_message, exe_message, csv_message]) ''@news''
     (Some ''20240105-news.json'') 100 ''list'' True (Some ''/data'') 3072 None no_effects) =
     (0, 0)"
proof -
  let ?ev = "example_env [csv_message, exe_message, csv_message]"
  have l: "export_messages ?ev example_channel (or_default None DEFAULT_ALLOWED_EXTENSIONS) 3072
           (or_default (Some ''/data'') (getcwd ?ev)) ''download'' 100
           (iter_messages ?ev example_channel 100) (initial_state no_effects) =
      Inr \<lparr>files_downloaded = 1, files_existed = 1, processed = 3,
        channel_data = [manifest_row example_channel csv_message ''report.csv'',
                        manifest_row example_channel csv_message ''report.csv''],
        world = \<lparr>files = {''/data/20240105-report.csv''},
          probes = [''/data/20240105-report.csv'', ''/data/20240105-report.csv''],
          transfers = [(media csv_message, Some ''/data/20240105-report.csv'')],
          writes = [], sleeps = 3\<rparr>\<rparr>"
    using download_twice_loop by (simp add: or_default_def example_env_simps)
  have r: "export_documents ?ev ''@news'' (Some ''20240105-news.json'') 100 ''download'' True
             (Some ''/data'') 3072 None no_effects =
      Completed \<lparr>files_downloaded = 1, files_existed = 1, processed = 3,
        channel_data = [manifest_row example_channel csv_message ''report.csv'',
                        manifest_row example_channel csv_message ''report.csv''],
        world = \<lparr>files = {''20240105-news.json'', ''/data/20240105-report.csv''},
          probes = [''/data/20240105-report.csv'', ''/data/20240105-report.csv''],
          transfers = [(media csv_message, Some ''/data/20240105-report.csv'')],
          writes = [(''20240105-news.json'', ''News'',
                     [manifest_row example_channel csv_message ''report.csv'',
                      manifest_row example_channel csv_message ''report.csv''])],
          sleeps = 3\<rparr>\<rparr>"
    using l by (simp add: export_documents_def write_output_def example_env_simps)
  have s: "start ?ev = None" and g: "get_entity ?ev ''@news'' = Inr example_channel"
    by (simp_all add: example_env_simps)
  have nl: "\<not> isl (export_messages ?ev example_channel
           (or_default None DEFAULT_ALLOWED_EXTENSIONS) 3072
           (or_default (Some ''/data'') (getcwd ?ev)) ''download'' 100
           (iter_messages ?ev example_channel 100) (initial_state no_effects))"
    by (simp only: l sum.disc not_False_eq_True)
  have li: "counters_of (export_documents ?ev ''@news'' (Some ''20240105-news.json'') 100
      ''list'' True (Some ''/data'') 3072 None no_effects) = (0, 0)"
    using counters_match_manifest[where ev = ?ev and channel_name = "''@news''"
        and chan = example_channel and allowed_extensions = None and maxsize_mb = 3072
        and download_dir = "Some ''/data''" and max_limit = 100 and fx = no_effects
        and output_file = "Some ''20240105-news.json''" and outp = True]
    by blast
  show ?thesis using s g nl li by (simp add: r)
qed

end
